theory Spec2Isabelle
  imports Complex_Main "HOL-Library.Log_Nat"
begin

section \<open>Python numbers\<close>

text \<open>
  Python's \<open>int\<close> is unbounded and is modelled by \<open>int\<close>. Python's \<open>float\<close> is an IEEE
  binary64 number; it is modelled by the rational it denotes, and every float operation
  rounds its exact result to the nearest number with a 53-bit significand, ties to the
  even significand. The exponent is not bounded (no overflow to infinity, no subnormal
  numbers): the game's quantities stay many orders of magnitude inside the normal range.
\<close>

type_synonym pyfloat = rat

definition pow2 :: "int \<Rightarrow> rat" where
  "pow2 e = 2 powi e"

definition round_half_even :: "rat \<Rightarrow> int" where
  "round_half_even x =
     (let f = \<lfloor>x\<rfloor>; d = x - of_int f
      in if d < 1 / 2 then f
         else if 1 / 2 < d then f + 1
         else if even f then f else f + 1)"

text \<open>The binary exponent of a positive rational: \<open>pow2 e \<le> x < pow2 (e + 1)\<close>.\<close>

definition exponent :: "rat \<Rightarrow> int" where
  "exponent x =
     (if 1 \<le> x then int (floorlog 2 (nat \<lfloor>x\<rfloor>)) - 1
      else - int (floorlog 2 (nat (\<lceil>1 / x\<rceil> - 1))))"

definition fl :: "rat \<Rightarrow> pyfloat" where
  "fl x =
     (if x = 0 then 0
      else let a = \<bar>x\<bar>; q = pow2 (exponent a - 52);
               m = of_int (round_half_even (a / q)) * q
           in if x < 0 then - m else m)"

definition fadd :: "pyfloat \<Rightarrow> pyfloat \<Rightarrow> pyfloat" where
  "fadd a b = fl (a + b)"

definition fsub :: "pyfloat \<Rightarrow> pyfloat \<Rightarrow> pyfloat" where
  "fsub a b = fl (a - b)"

definition fmul :: "pyfloat \<Rightarrow> pyfloat \<Rightarrow> pyfloat" where
  "fmul a b = fl (a * b)"

text \<open>An \<open>int\<close> operand of a float operation is converted first (\<open>float(n)\<close>).\<close>

definition float_of_int :: "int \<Rightarrow> pyfloat" where
  "float_of_int n = fl (of_int n)"

text \<open>\<open>int(x)\<close> of a float truncates toward zero.\<close>

definition py_int :: "pyfloat \<Rightarrow> int" where
  "py_int x = (if 0 \<le> x then \<lfloor>x\<rfloor> else \<lceil>x\<rceil>)"

text \<open>\<open>str(n)\<close> for an \<open>int\<close>, as the f-strings of the HUD texts use it.\<close>

function str_nat :: "nat \<Rightarrow> string" where
  "str_nat n =
     (if n < 10 then [char_of (48 + n)]
      else str_nat (n div 10) @ [char_of (48 + n mod 10)])"
  by pat_completeness auto
termination
  by (relation "measure id") auto

definition str_int :: "int \<Rightarrow> string" where
  "str_int i = (if i < 0 then CHR ''-'' # str_nat (nat (- i)) else str_nat (nat i))"


section \<open>The food catalog (game.py, FoodType)\<close>

datatype FoodType = APPLE | BANANA | SPECIAL

type_synonym color = "nat \<times> nat \<times> nat"

fun value_points :: "FoodType \<Rightarrow> int" where
  "value_points APPLE = 1"
| "value_points BANANA = 2"
| "value_points SPECIAL = 5"

fun value_speed :: "FoodType \<Rightarrow> pyfloat" where
  "value_speed APPLE = fl (12 / 10)"
| "value_speed BANANA = fl (14 / 10)"
| "value_speed SPECIAL = fl (18 / 10)"

fun value_weight :: "FoodType \<Rightarrow> pyfloat" where
  "value_weight APPLE = fl (5 / 10)"
| "value_weight BANANA = fl (3 / 10)"
| "value_weight SPECIAL = fl (2 / 10)"

fun value_size :: "FoodType \<Rightarrow> int \<times> int" where
  "value_size APPLE = (60, 60)"
| "value_size BANANA = (70, 70)"
| "value_size SPECIAL = (80, 80)"

fun value_color :: "FoodType \<Rightarrow> color" where
  "value_color APPLE = (255, 0, 0)"
| "value_color BANANA = (255, 255, 0)"
| "value_color SPECIAL = (255, 215, 0)"

datatype GameState = LOBBY | PLAYING | PAUSED | GAME_OVER | HOW_TO_PLAY | CREDITS | SETTINGS


section \<open>Rectangles and surfaces (the part of pygame the game logic reads)\<close>

text \<open>
  A \<open>pygame.Rect\<close> holds four integers. Assigning a float to a coordinate stores it
  truncated toward zero. \<open>colliderect\<close> is true when the two rectangles overlap in a
  region of positive area.
\<close>

record Rect =
  r_x :: int
  r_y :: int
  r_w :: int
  r_h :: int

definition rect_left :: "Rect \<Rightarrow> int" where "rect_left r = r_x r"
definition rect_top :: "Rect \<Rightarrow> int" where "rect_top r = r_y r"
definition rect_right :: "Rect \<Rightarrow> int" where "rect_right r = r_x r + r_w r"
definition rect_bottom :: "Rect \<Rightarrow> int" where "rect_bottom r = r_y r + r_h r"
definition centerx :: "Rect \<Rightarrow> int" where "centerx r = r_x r + r_w r div 2"
definition centery :: "Rect \<Rightarrow> int" where "centery r = r_y r + r_h r div 2"

definition colliderect :: "Rect \<Rightarrow> Rect \<Rightarrow> bool" where
  "colliderect a b =
     (r_w a \<noteq> 0 \<and> r_h a \<noteq> 0 \<and> r_w b \<noteq> 0 \<and> r_h b \<noteq> 0 \<and>
      min (r_x a) (r_x a + r_w a) < max (r_x b) (r_x b + r_w b) \<and>
      min (r_y a) (r_y a + r_h a) < max (r_y b) (r_y b + r_h b) \<and>
      min (r_x b) (r_x b + r_w b) < max (r_x a) (r_x a + r_w a) \<and>
      min (r_y b) (r_y b + r_h b) < max (r_y a) (r_y a + r_h a))"

text \<open>\<open>surface.get_rect(center=(cx, cy))\<close> for a surface of size \<open>(w, h)\<close>.\<close>

definition get_rect_center :: "int \<times> int \<Rightarrow> int \<times> int \<Rightarrow> Rect" where
  "get_rect_center sz c =
     \<lparr>r_x = fst c - fst sz div 2, r_y = snd c - snd sz div 2, r_w = fst sz, r_h = snd sz\<rparr>"

definition get_rect_topleft :: "int \<times> int \<Rightarrow> int \<times> int \<Rightarrow> Rect" where
  "get_rect_topleft sz p = \<lparr>r_x = fst p, r_y = snd p, r_w = fst sz, r_h = snd sz\<rparr>"

text \<open>
  A \<open>pygame.Surface\<close> is an object compared by identity; only its identity and its size
  matter to the game logic.
\<close>

record Surface =
  surf_id :: nat
  surf_size :: "int \<times> int"


section \<open>The round state (gamedata.py)\<close>

record Food =
  img :: Surface
  rect :: Rect
  ftype :: FoodType
  speed :: pyfloat

record ScorePopup =
  popup_text :: string
  popup_pos :: "int \<times> int"
  popup_timer :: int
  popup_color :: color

record Message =
  msg_text :: string
  msg_timer :: int
  msg_color :: color

record GameData =
  score :: int
  missed_food :: int
  max_missed_food :: int
  level :: int
  combo :: int
  max_combo :: int
  food_objects :: "Food list"
  game_over :: bool
  character_speed :: pyfloat
  base_spawn_rate :: int
  current_spawn_rate :: int
  difficulty_multiplier :: pyfloat
  score_multiplier :: pyfloat
  spawn_timer :: int
  level_timer :: int
  special_spawn_chance :: pyfloat
  powerup_active :: bool
  powerup_timer :: int
  score_popups :: "ScorePopup list"
  achievement_messages :: "Message list"
  total_catches :: int
  perfect_catches :: int
  start_time :: int

text \<open>\<open>GameData()\<close>; the argument is the clock reading \<open>pygame.time.get_ticks()\<close>.\<close>

definition new_GameData :: "int \<Rightarrow> GameData" where
  "new_GameData ticks =
     \<lparr>score = 0, missed_food = 0, max_missed_food = 3, level = 1, combo = 0, max_combo = 0,
      food_objects = [], game_over = False, character_speed = 10, base_spawn_rate = 45,
      current_spawn_rate = 45, difficulty_multiplier = fl 1, score_multiplier = fl 1,
      spawn_timer = 0, level_timer = 0, special_spawn_chance = fl (15 / 100),
      powerup_active = False, powerup_timer = 0, score_popups = [],
      achievement_messages = [], total_catches = 0, perfect_catches = 0,
      start_time = ticks\<rparr>"


section \<open>The difficulty progressor (Game.update\_difficulty)\<close>

text \<open>The four parameters the level-up recomputes, as functions of the new level.\<close>

definition level_difficulty :: "int \<Rightarrow> pyfloat" where
  "level_difficulty l = fadd (fl 1) (fmul (float_of_int (l - 1)) (fl (12 / 100)))"

definition level_spawn_rate :: "int \<Rightarrow> int \<Rightarrow> int" where
  "level_spawn_rate base l = max 15 (base - (l - 1) * 4)"

definition level_special_chance :: "int \<Rightarrow> pyfloat" where
  "level_special_chance l =
     min (fl (35 / 100)) (fadd (fl (15 / 100)) (fmul (float_of_int (l - 1)) (fl (25 / 1000))))"

definition level_character_speed :: "int \<Rightarrow> pyfloat" where
  "level_character_speed l =
     min 16 (fadd (float_of_int 10) (fmul (float_of_int (l - 1)) (fl (6 / 10))))"

definition update_difficulty :: "GameData \<Rightarrow> GameData" where
  "update_difficulty gd0 =
     (let gd = gd0\<lparr>level_timer := level_timer gd0 + 1\<rparr>
      in if 500 \<le> level_timer gd then
           (let gd = gd\<lparr>level := level gd + 1\<rparr>;
                gd = gd\<lparr>level_timer := 0\<rparr>;
                gd = gd\<lparr>difficulty_multiplier := level_difficulty (level gd)\<rparr>;
                gd = gd\<lparr>current_spawn_rate := level_spawn_rate (base_spawn_rate gd) (level gd)\<rparr>;
                gd = gd\<lparr>special_spawn_chance := level_special_chance (level gd)\<rparr>;
                gd = gd\<lparr>character_speed := level_character_speed (level gd)\<rparr>
            in gd\<lparr>achievement_messages := achievement_messages gd @
                  [\<lparr>msg_text = ''Level Up! '' @ str_int (level gd), msg_timer = 120,
                    msg_color = (255, 215, 0)\<rparr>]\<rparr>)
         else gd)"


section \<open>Catching an item (Game.handle\_collision)\<close>

definition combo_multiplier :: "int \<Rightarrow> pyfloat" where
  "combo_multiplier c = min 4 (fadd (float_of_int 1) (fmul (float_of_int c) (fl (15 / 100))))"

definition catch_points :: "FoodType \<Rightarrow> int \<Rightarrow> pyfloat \<Rightarrow> int" where
  "catch_points t c sm =
     py_int (fmul (fmul (float_of_int (value_points t)) (combo_multiplier c)) sm)"

text \<open>
  The catch sound is an external effect without state. \<open>food_objects.remove(food)\<close>
  deletes the first element equal to \<open>food\<close>; the caller passes an element of the list.
  The result pairs the mutated round state with the returned points.
\<close>

definition handle_collision :: "GameData \<Rightarrow> Food \<Rightarrow> GameData \<times> int" where
  "handle_collision gd0 food =
     (let food_type = ftype food;
          gd = gd0\<lparr>combo := combo gd0 + 1\<rparr>;
          gd = gd\<lparr>max_combo := max (max_combo gd) (combo gd)\<rparr>;
          pts = catch_points food_type (combo gd) (score_multiplier gd);
          gd = gd\<lparr>score := score gd + pts\<rparr>;
          gd = gd\<lparr>total_catches := total_catches gd + 1\<rparr>;
          gd = gd\<lparr>score_popups := score_popups gd @
                 [\<lparr>popup_text = CHR ''+'' # str_int pts,
                   popup_pos = (centerx (rect food), centery (rect food)),
                   popup_timer = 60, popup_color = value_color food_type\<rparr>]\<rparr>;
          gd = (if combo gd = 10
                then gd\<lparr>achievement_messages := achievement_messages gd @
                       [\<lparr>msg_text = ''Super Combo!'', msg_timer = 120,
                         msg_color = (255, 165, 0)\<rparr>]\<rparr>
                else gd)
      in (gd\<lparr>food_objects := remove1 food (food_objects gd)\<rparr>, pts))"


section \<open>Random draws (the part of Python's \<open>random\<close> module the spawner calls)\<close>

text \<open>
  Every call into the random module consumes one raw draw, an arbitrary natural number
  supplied from outside; the functions below map it onto the call's range, so that
  quantifying over the raw draws covers every outcome the call can have.
  \<open>random()\<close> yields a multiple of \<open>2 ^ -53\<close> in \<open>[0, 1)\<close>; \<open>randint(a, b)\<close> and
  \<open>choice(seq)\<close> raise on an empty range; \<open>choices(population, weights)\<close> raises
  \<open>ValueError\<close> when the weights do not sum to a positive number and otherwise bisects
  the cumulative weights with \<open>random() * total\<close>.
\<close>

datatype py_error = ValueError | IndexError | TypeError | AttributeError | IOError

definition random_random :: "nat \<Rightarrow> pyfloat" where
  "random_random r = of_nat (r mod 2 ^ 53) / 2 ^ 53"

definition randint :: "int \<Rightarrow> int \<Rightarrow> nat \<Rightarrow> py_error + int" where
  "randint a b r = (if b < a then Inl ValueError else Inr (a + int r mod (b - a + 1)))"

definition choice :: "'a list \<Rightarrow> nat \<Rightarrow> py_error + 'a" where
  "choice seq r = (if seq = [] then Inl IndexError else Inr (seq ! (r mod length seq)))"

fun accumulate_from :: "pyfloat \<Rightarrow> pyfloat list \<Rightarrow> pyfloat list" where
  "accumulate_from t [] = []"
| "accumulate_from t (w # ws) = fadd t w # accumulate_from (fadd t w) ws"

definition accumulate :: "pyfloat list \<Rightarrow> pyfloat list" where
  "accumulate ws = (case ws of [] \<Rightarrow> [] | w # ws' \<Rightarrow> w # accumulate_from w ws')"

function bisect :: "pyfloat list \<Rightarrow> pyfloat \<Rightarrow> nat \<Rightarrow> nat \<Rightarrow> nat" where
  "bisect a x lo hi =
     (if lo < hi
      then (let mid = (lo + hi) div 2
            in if x < a ! mid then bisect a x lo mid else bisect a x (mid + 1) hi)
      else lo)"
  by pat_completeness auto
termination
  by (relation "measure (\<lambda>(a, x, lo, hi). hi - lo)") auto

definition choices :: "'a list \<Rightarrow> pyfloat list \<Rightarrow> nat \<Rightarrow> py_error + 'a" where
  "choices population weights r =
     (let n = length population;
          cum_weights = accumulate weights
      in if length cum_weights \<noteq> n \<or> n = 0 then Inl ValueError
         else (let total = fadd (last cum_weights) 0
               in if total \<le> 0 then Inl ValueError
                  else Inr (population !
                         bisect cum_weights (fmul (random_random r) total) 0 (n - 1))))"


section \<open>The spawn engine (Game.spawn\_food)\<close>

text \<open>
  The raw draws of one spawn, in the order the code makes its calls, and the identity of
  the surface object that the image load (or its fallback) creates. \<open>nudge_draws k\<close>
  is the draw used if the \<open>k\<close>-th active item triggers the overlap nudge.
\<close>

record SpawnDraws =
  rare_draw :: nat
  pick_draw :: nat
  x_draw :: nat
  offset_chance_draw :: nat
  offset_draw :: nat
  y_draw :: nat
  nudge_draws :: "nat \<Rightarrow> nat"
  new_surface :: nat

definition spawn_weights :: "pyfloat \<Rightarrow> nat \<Rightarrow> pyfloat list" where
  "spawn_weights chance r =
     [value_weight APPLE, value_weight BANANA,
      if random_random r < chance then value_weight SPECIAL else 0]"

definition clamp_x :: "int \<Rightarrow> int \<Rightarrow> int" where
  "clamp_x wdth x = max 100 (min (wdth - 100) x)"

text \<open>The choice of \<open>spawn_x\<close> before the overlap pass (the three placement branches).\<close>

definition choose_spawn_x :: "int \<Rightarrow> int \<Rightarrow> SpawnDraws \<Rightarrow> py_error + int" where
  "choose_spawn_x wdth player_x d =
     (let spawn_window = 400
      in if player_x < 300 then randint 200 600 (x_draw d)
         else if wdth - 300 < player_x then randint (wdth - 600) (wdth - 200) (x_draw d)
         else (let min_spawn = max 100 (player_x - spawn_window div 2);
                   max_spawn = min (wdth - 100) (player_x + spawn_window div 2)
               in case randint min_spawn max_spawn (x_draw d) of
                    Inl e \<Rightarrow> Inl e
                  | Inr spawn_x \<Rightarrow>
                      if random_random (offset_chance_draw d) < fl (2 / 10)
                      then (case choice [- 200, 200] (offset_draw d) of
                              Inl e \<Rightarrow> Inl e
                            | Inr offset \<Rightarrow> Inr (clamp_x wdth (spawn_x + offset)))
                      else Inr spawn_x))"

text \<open>
  The overlap pass: one visit of every active item, in list order; \<open>k\<close> counts the
  items visited so far. Each item whose centre is within 60 of the current \<open>spawn_x\<close>
  moves \<open>spawn_x\<close> by 50 to one side and clamps it.
\<close>

fun avoid_overlap :: "int \<Rightarrow> (nat \<Rightarrow> nat) \<Rightarrow> nat \<Rightarrow> Food list \<Rightarrow> int \<Rightarrow> py_error + int" where
  "avoid_overlap wdth nd k [] spawn_x = Inr spawn_x"
| "avoid_overlap wdth nd k (existing_food # rest) spawn_x =
     (if \<bar>centerx (rect existing_food) - spawn_x\<bar> < 60
      then (case choice [- 50, 50] (nd k) of
              Inl e \<Rightarrow> Inl e
            | Inr step \<Rightarrow> avoid_overlap wdth nd (Suc k) rest (clamp_x wdth (spawn_x + step)))
      else avoid_overlap wdth nd (Suc k) rest spawn_x)"

definition spawn_food :: "int \<Rightarrow> Rect \<Rightarrow> SpawnDraws \<Rightarrow> GameData \<Rightarrow> py_error + GameData" where
  "spawn_food wdth character_rect d game_data =
     (let weights = spawn_weights (special_spawn_chance game_data) (rare_draw d)
      in case choices [APPLE, BANANA, SPECIAL] weights (pick_draw d) of
           Inl e \<Rightarrow> Inl e
         | Inr food_type \<Rightarrow>
            (let food_img = \<lparr>surf_id = new_surface d, surf_size = value_size food_type\<rparr>;
                 player_x = centerx character_rect
             in case choose_spawn_x wdth player_x d of
                  Inl e \<Rightarrow> Inl e
                | Inr spawn_x \<Rightarrow>
                   (case randint (- 70) (- 40) (y_draw d) of
                      Inl e \<Rightarrow> Inl e
                    | Inr spawn_y \<Rightarrow>
                       (case avoid_overlap wdth (nudge_draws d) 0 (food_objects game_data) spawn_x of
                          Inl e \<Rightarrow> Inl e
                        | Inr final_x \<Rightarrow>
                           Inr (game_data\<lparr>food_objects := food_objects game_data @
                                  [\<lparr>img = food_img,
                                    rect = get_rect_topleft (surf_size food_img) (final_x, spawn_y),
                                    ftype = food_type,
                                    speed = fmul (value_speed food_type)
                                              (difficulty_multiplier game_data)\<rparr>]\<rparr>)))))"


section \<open>The game object and one simulation tick (Game.update\_game\_state)\<close>

record AnalyticsData =
  games_played :: int
  total_score :: int
  max_score :: int
  total_time :: int
  items_caught :: int

text \<open>
  The two files the game writes. A write either succeeds and replaces the content, or
  fails with an \<open>IOError\<close> that the code logs and drops; \<open>writable\<close> says which.
\<close>

record Files =
  high_score_txt :: "int option"
  analytics_json :: "AnalyticsData option"
  writable :: bool

record Game =
  width :: int
  height :: int
  analytics :: AnalyticsData
  paused :: bool
  high_score :: int
  current_state :: GameState
  game_data :: "GameData option"
  character_rect :: Rect
  files :: Files

record TickInput =
  key_a :: bool
  key_d :: bool
  draws :: SpawnDraws

text \<open>
  The loop \<open>for food in self.game_data.food_objects[:]\<close>. The first argument is the part
  of the snapshot still to visit. The snapshot is a shallow copy: its elements are the
  objects of the live list, and the object now visited sits in the live list just before
  the objects not yet visited, because so far only visited objects were removed. The
  write to \<open>food['rect'].y\<close> therefore lands in that slot of the live list. The loop
  state is \<open>self.current_state\<close> with the round state.
\<close>

definition move_down :: "Food \<Rightarrow> Food" where
  "move_down food =
     food\<lparr>rect := (rect food)\<lparr>r_y :=
            py_int (fadd (float_of_int (r_y (rect food))) (speed food))\<rparr>\<rparr>"

text \<open>
  The body of the loop for the object that has \<open>n\<close> snapshot objects after it.
\<close>

definition visit_food :: "Rect \<Rightarrow> int \<Rightarrow> nat \<Rightarrow> GameState \<times> GameData \<Rightarrow> GameState \<times> GameData" where
  "visit_food cr hgt n s =
     (let st = fst s; gd = snd s;
          live = food_objects gd;
          i = length live - Suc n;
          food = move_down (live ! i);
          gd = gd\<lparr>food_objects := live[i := food]\<rparr>
      in if colliderect (rect food) cr then (st, fst (handle_collision gd food))
         else if hgt < rect_top (rect food) then
           (let gd = gd\<lparr>food_objects := remove1 food (food_objects gd)\<rparr>;
                gd = gd\<lparr>missed_food := missed_food gd + 1\<rparr>;
                gd = gd\<lparr>combo := 0\<rparr>
            in if max_missed_food gd \<le> missed_food gd
               then (GAME_OVER, gd\<lparr>game_over := True\<rparr>)
               else (st, gd))
         else (st, gd))"

fun update_foods :: "Rect \<Rightarrow> int \<Rightarrow> Food list \<Rightarrow> GameState \<times> GameData \<Rightarrow> GameState \<times> GameData" where
  "update_foods cr hgt [] s = s"
| "update_foods cr hgt (_ # rest) s = update_foods cr hgt rest (visit_food cr hgt (length rest) s)"

definition move_character :: "TickInput \<Rightarrow> int \<Rightarrow> pyfloat \<Rightarrow> Rect \<Rightarrow> Rect" where
  "move_character inp wdth spd cr0 =
     (let cr = (if key_a inp \<and> 0 < rect_left cr0
                then cr0\<lparr>r_x := py_int (fsub (float_of_int (r_x cr0)) spd)\<rparr> else cr0)
      in if key_d inp \<and> rect_right cr < wdth
         then cr\<lparr>r_x := py_int (fadd (float_of_int (r_x cr)) spd)\<rparr> else cr)"

text \<open>The spawn timer and the spawn it triggers (the middle of \<open>update_game_state\<close>).\<close>

definition spawn_step :: "int \<Rightarrow> Rect \<Rightarrow> SpawnDraws \<Rightarrow> GameData \<Rightarrow> py_error + GameData" where
  "spawn_step wdth cr d gd0 =
     (let gd = gd0\<lparr>spawn_timer := spawn_timer gd0 + 1\<rparr>
      in if current_spawn_rate gd \<le> spawn_timer gd
         then (case spawn_food wdth cr d gd of
                 Inl e \<Rightarrow> Inl e
               | Inr gd' \<Rightarrow> Inr (gd'\<lparr>spawn_timer := 0\<rparr>))
         else Inr gd)"

text \<open>
  Without a round state the first attribute access raises; \<open>Game.update\<close> never calls
  the function so.
\<close>

definition update_game_state :: "TickInput \<Rightarrow> Game \<Rightarrow> py_error + Game" where
  "update_game_state inp g =
     (case game_data g of
        None \<Rightarrow> Inl AttributeError
      | Some gd0 \<Rightarrow>
         (let cr = move_character inp (width g) (character_speed gd0) (character_rect g);
              gd = update_difficulty gd0
          in case spawn_step (width g) cr (draws inp) gd of
               Inl e \<Rightarrow> Inl e
             | Inr gd \<Rightarrow>
                (let s = update_foods cr (height g) (food_objects gd) (current_state g, gd)
                 in Inr (g\<lparr>character_rect := cr, current_state := fst s,
                           game_data := Some (snd s)\<rparr>))))"

definition save_high_score :: "Game \<Rightarrow> Game" where
  "save_high_score g =
     (if writable (files g)
      then g\<lparr>files := (files g)\<lparr>high_score_txt := Some (high_score g)\<rparr>\<rparr>
      else g)"

text \<open>\<open>Game.update\<close>: one tick if the round is being played and is not paused.\<close>

definition update :: "TickInput \<Rightarrow> Game \<Rightarrow> py_error + Game" where
  "update inp g =
     (if current_state g = PLAYING \<and> game_data g \<noteq> None \<and> \<not> paused g
      then (case update_game_state inp g of
              Inl e \<Rightarrow> Inl e
            | Inr g1 \<Rightarrow>
               (case game_data g1 of
                  None \<Rightarrow> Inl AttributeError
                | Some gd \<Rightarrow>
                   if high_score g1 < score gd
                   then Inr (save_high_score (g1\<lparr>high_score := score gd\<rparr>))
                   else Inr g1))
      else Inr g)"


section \<open>Rendering (Game.render, draw\_enhanced\_hud, show\_game\_over)\<close>

text \<open>
  Only the effect of the drawing code on the game object is modelled; the pixels go to the
  display. The two HUD loops run over a snapshot of their queue, as the item loop does.
\<close>

fun draw_popups :: "ScorePopup list \<Rightarrow> ScorePopup list \<Rightarrow> ScorePopup list" where
  "draw_popups [] live = live"
| "draw_popups (_ # rest) live =
     (let i = length live - Suc (length rest);
          popup = (live ! i)\<lparr>popup_timer := popup_timer (live ! i) - 1\<rparr>;
          live = live[i := popup]
      in draw_popups rest (if popup_timer popup \<le> 0 then remove1 popup live else live))"

fun draw_messages :: "Message list \<Rightarrow> Message list \<Rightarrow> Message list" where
  "draw_messages [] live = live"
| "draw_messages (_ # rest) live =
     (let i = length live - Suc (length rest);
          msg = (live ! i)\<lparr>msg_timer := msg_timer (live ! i) - 1\<rparr>;
          live = live[i := msg]
      in draw_messages rest (if 0 < msg_timer msg then live else remove1 msg live))"

definition draw_enhanced_hud :: "GameData \<Rightarrow> GameData" where
  "draw_enhanced_hud gd0 =
     (let gd = gd0\<lparr>score_popups := draw_popups (score_popups gd0) (score_popups gd0)\<rparr>
      in gd\<lparr>achievement_messages :=
              draw_messages (achievement_messages gd) (achievement_messages gd)\<rparr>)"

definition render_game :: "Game \<Rightarrow> Game" where
  "render_game g =
     (case game_data g of
        None \<Rightarrow> g
      | Some gd \<Rightarrow> g\<lparr>game_data := Some (draw_enhanced_hud gd)\<rparr>)"

definition show_game_over :: "Game \<Rightarrow> GameData \<Rightarrow> Game" where
  "show_game_over g gd =
     (if high_score g < score gd
      then save_high_score (g\<lparr>high_score := score gd\<rparr>)
      else g)"

definition render_game_over :: "Game \<Rightarrow> Game" where
  "render_game_over g = (case game_data g of None \<Rightarrow> g | Some gd \<Rightarrow> show_game_over g gd)"

definition render :: "Game \<Rightarrow> Game" where
  "render g =
     (if current_state g = PLAYING \<or> current_state g = PAUSED then render_game g
      else if current_state g = GAME_OVER then render_game_over g
      else g)"


section \<open>Analytics (analytics.py)\<close>

definition new_AnalyticsData :: AnalyticsData where
  "new_AnalyticsData =
     \<lparr>games_played = 0, total_score = 0, max_score = 0, total_time = 0, items_caught = 0\<rparr>"

definition save_analytics :: "AnalyticsData \<Rightarrow> Files \<Rightarrow> Files" where
  "save_analytics d fs = (if writable fs then fs\<lparr>analytics_json := Some d\<rparr> else fs)"

definition update_session :: "AnalyticsData \<times> Files \<Rightarrow> GameData \<Rightarrow> AnalyticsData \<times> Files" where
  "update_session af gd =
     (let d = fst af;
          d = d\<lparr>games_played := games_played d + 1\<rparr>;
          d = d\<lparr>total_score := total_score d + score gd\<rparr>;
          d = d\<lparr>max_score := max (max_score d) (score gd)\<rparr>;
          d = d\<lparr>items_caught := items_caught d + total_catches gd\<rparr>
      in (d, save_analytics d (snd af)))"


section \<open>Start-up and the event handlers (Game.\_\_init\_\_, handle\_mouse\_click, handle\_keydown)\<close>

text \<open>
  The game object after \<open>__init__\<close>, for a configured screen size, a high score read
  from its file and analytics data read from theirs. The character surface is 90 by 150
  in both branches of \<open>load_game_resources\<close>.
\<close>

definition init_Game :: "int \<Rightarrow> int \<Rightarrow> int \<Rightarrow> AnalyticsData \<Rightarrow> Files \<Rightarrow> Game" where
  "init_Game w h hs a fs =
     \<lparr>width = w, height = h, analytics = a, paused = False, high_score = hs,
      current_state = LOBBY, game_data = None,
      character_rect = get_rect_center (90, 150) (w div 2, h - 170), files = fs\<rparr>"

definition collidepoint :: "Rect \<Rightarrow> int \<times> int \<Rightarrow> bool" where
  "collidepoint r p =
     (r_x r \<le> fst p \<and> fst p < r_x r + r_w r \<and> r_y r \<le> snd p \<and> snd p < r_y r + r_h r)"

definition get_lobby_buttons :: "Game \<Rightarrow> Rect \<times> Rect \<times> Rect" where
  "get_lobby_buttons g =
     (let button_width = 300; button_height = 60;
          button_x = width g div 2 - button_width div 2
      in (\<lparr>r_x = button_x, r_y = height g div 2, r_w = button_width, r_h = button_height\<rparr>,
          \<lparr>r_x = button_x, r_y = height g div 2 + 100, r_w = button_width, r_h = button_height\<rparr>,
          \<lparr>r_x = button_x, r_y = height g div 2 + 200, r_w = button_width, r_h = button_height\<rparr>))"

text \<open>The first argument is the clock reading that a new \<open>GameData()\<close> stores.\<close>

definition handle_mouse_click :: "int \<Rightarrow> int \<times> int \<Rightarrow> Game \<Rightarrow> Game" where
  "handle_mouse_click ticks mouse_pos g =
     (if current_state g = LOBBY then
        (case get_lobby_buttons g of (play_rect, how_to_play_rect, credits_rect) \<Rightarrow>
           if collidepoint play_rect mouse_pos
           then g\<lparr>current_state := PLAYING, game_data := Some (new_GameData ticks)\<rparr>
           else if collidepoint how_to_play_rect mouse_pos then g\<lparr>current_state := HOW_TO_PLAY\<rparr>
           else if collidepoint credits_rect mouse_pos then g\<lparr>current_state := CREDITS\<rparr>
           else g)
      else if current_state g = HOW_TO_PLAY \<or> current_state g = CREDITS then
        (if collidepoint \<lparr>r_x = width g div 2 - 100, r_y = height g - 80, r_w = 200, r_h = 50\<rparr>
              mouse_pos
         then g\<lparr>current_state := LOBBY\<rparr> else g)
      else if current_state g = GAME_OVER then
        (if game_data g \<noteq> None \<and>
            collidepoint \<lparr>r_x = width g div 2 - 100, r_y = height g div 2 + 100,
                          r_w = 200, r_h = 60\<rparr> mouse_pos
         then g\<lparr>current_state := LOBBY\<rparr> else g)
      else g)"

text \<open>\<open>handle_keydown\<close> for the escape key; the pause manager's clock fields are not read
  by the simulation and are left out.\<close>

definition handle_keydown :: "Game \<Rightarrow> Game" where
  "handle_keydown g =
     (if current_state g = PLAYING then g\<lparr>paused := \<not> paused g, current_state := PAUSED\<rparr>
      else if current_state g = PAUSED then g\<lparr>paused := \<not> paused g, current_state := PLAYING\<rparr>
      else if current_state g = HOW_TO_PLAY \<or> current_state g = CREDITS
      then g\<lparr>current_state := LOBBY\<rparr>
      else g)"

text \<open>The game objects a session can reach from start-up.\<close>

inductive reachable :: "Game \<Rightarrow> bool" where
  init: "reachable (init_Game w h hs a fs)"
| click: "reachable g \<Longrightarrow> reachable (handle_mouse_click ticks mouse_pos g)"
| key: "reachable g \<Longrightarrow> reachable (handle_keydown g)"
| tick: "reachable g \<Longrightarrow> update inp g = Inr g' \<Longrightarrow> reachable g'"
| frame: "reachable g \<Longrightarrow> reachable (render g)"


section \<open>Configuration (load\_config)\<close>

datatype json =
  JNull | JBool bool | JInt int | JFloat pyfloat | JStr string
  | JArr "json list" | JObj "(string \<times> json) list"

text \<open>A Python \<open>dict\<close> with string keys, in insertion order.\<close>

type_synonym 'v dict = "(string \<times> 'v) list"

fun dict_set :: "'v dict \<Rightarrow> string \<Rightarrow> 'v \<Rightarrow> 'v dict" where
  "dict_set [] k v = [(k, v)]"
| "dict_set ((k', v') # d) k v = (if k' = k then (k, v) # d else (k', v') # dict_set d k v)"

definition dict_get :: "'v dict \<Rightarrow> string \<Rightarrow> 'v option" where
  "dict_get d k = map_of d k"

text \<open>\<open>{**a, **b}\<close>\<close>

definition dict_merge :: "'v dict \<Rightarrow> 'v dict \<Rightarrow> 'v dict" where
  "dict_merge a b = foldl (\<lambda>d kv. dict_set d (fst kv) (snd kv)) a b"

definition DEFAULT_CONFIG :: "json dict" where
  "DEFAULT_CONFIG =
     [(''sound_volume'', JFloat (fl (7 / 10))), (''music_volume'', JFloat (fl (5 / 10))),
      (''screen_width'', JInt 1200), (''screen_height'', JInt 800), (''fps'', JInt 60),
      (''analytics_enabled'', JBool True)]"

text \<open>
  What reading \<open>config.json\<close> can meet: the file does not exist, opening or reading it
  raises, its text is not JSON, or it parses to a JSON value.
\<close>

datatype config_file = Absent | Unreadable | Malformed | Parsed json

text \<open>The body of the \<open>try\<close>; unpacking \<open>**\<close> of a value that is not an object raises.\<close>

fun load_config_try :: "config_file \<Rightarrow> py_error + json dict" where
  "load_config_try Absent = Inr DEFAULT_CONFIG"
| "load_config_try Unreadable = Inl IOError"
| "load_config_try Malformed = Inl ValueError"
| "load_config_try (Parsed (JObj d)) = Inr (dict_merge DEFAULT_CONFIG d)"
| "load_config_try (Parsed _) = Inl TypeError"

definition load_config :: "config_file \<Rightarrow> json dict" where
  "load_config f = (case load_config_try f of Inl e \<Rightarrow> DEFAULT_CONFIG | Inr c \<Rightarrow> c)"


section \<open>A session on the default screen\<close>

text \<open>
  The game object after start-up with the default 1200 by 800 screen, no stored high
  score or analytics, and the same object after a click on the Play button.
\<close>

definition example_lobby :: Game where
  "example_lobby =
     init_Game 1200 800 0 new_AnalyticsData
       \<lparr>high_score_txt = None, analytics_json = None, writable = True\<rparr>"

definition example_round :: Game where
  "example_round = handle_mouse_click 0 (600, 420) example_lobby"

text \<open>
  A running round at level 2 with two misses so far and two items about to leave the
  field in the same tick: an Apple at y = 800 and, spawned after it, a faster Special at
  y = 799.
\<close>

definition example_last_misses :: Game where
  "example_last_misses =
     example_round\<lparr>game_data := Some ((new_GameData 0)
       \<lparr>missed_food := 2, level := 2, level_timer := 100,
        difficulty_multiplier := level_difficulty 2,
        current_spawn_rate := level_spawn_rate 45 2,
        special_spawn_chance := level_special_chance 2,
        character_speed := level_character_speed 2,
        food_objects :=
          [\<lparr>img = \<lparr>surf_id = 1, surf_size = (60, 60)\<rparr>,
            rect = \<lparr>r_x = 100, r_y = 800, r_w = 60, r_h = 60\<rparr>, ftype = APPLE,
            speed = fmul (value_speed APPLE) (level_difficulty 2)\<rparr>,
           \<lparr>img = \<lparr>surf_id = 2, surf_size = (80, 80)\<rparr>,
            rect = \<lparr>r_x = 300, r_y = 799, r_w = 80, r_h = 80\<rparr>, ftype = SPECIAL,
            speed = fmul (value_speed SPECIAL) (level_difficulty 2)\<rparr>]\<rparr>)\<rparr>"

text \<open>A tick input with no key pressed and every raw draw 0.\<close>

definition example_input :: TickInput where
  "example_input =
     \<lparr>key_a = False, key_d = False,
      draws = \<lparr>rare_draw = 0, pick_draw = 0, x_draw = 0, offset_chance_draw = 0,
               offset_draw = 0, y_draw = 0, nudge_draws = (\<lambda>k. 0), new_surface = 0\<rparr>\<rparr>"


section \<open>Invariants of a session\<close>

text \<open>The four level-derived parameters agree with the formulas at the current level.\<close>

definition derived_ok :: "GameData \<Rightarrow> bool" where
  "derived_ok gd \<longleftrightarrow>
     base_spawn_rate gd = 45 \<and>
     difficulty_multiplier gd = level_difficulty (level gd) \<and>
     current_spawn_rate gd = level_spawn_rate (base_spawn_rate gd) (level gd) \<and>
     special_spawn_chance gd = level_special_chance (level gd) \<and>
     character_speed gd = level_character_speed (level gd)"

definition round_inv :: "GameData \<Rightarrow> bool" where
  "round_inv gd \<longleftrightarrow>
     max_missed_food gd = 3 \<and> 0 \<le> missed_food gd \<and> 0 \<le> combo gd \<and>
     score_multiplier gd = 1 \<and> derived_ok gd \<and>
     (\<forall>f \<in> set (food_objects gd). 0 \<le> r_h (rect f))"

text \<open>
  The invariant of the item loop: the state is game-over exactly if the misses have
  reached the limit.
\<close>

definition loop_inv :: "GameState \<times> GameData \<Rightarrow> bool" where
  "loop_inv s \<longleftrightarrow>
     round_inv (snd s) \<and> (fst s = PLAYING \<or> fst s = GAME_OVER) \<and>
     (fst s = GAME_OVER \<longleftrightarrow> max_missed_food (snd s) \<le> missed_food (snd s))"

definition game_inv :: "Game \<Rightarrow> bool" where
  "game_inv g \<longleftrightarrow>
     rect_bottom (character_rect g) \<le> height g \<and> 0 \<le> r_h (character_rect g) \<and>
     (case game_data g of None \<Rightarrow> True | Some gd \<Rightarrow> round_inv gd) \<and>
     (current_state g = PLAYING \<or> current_state g = PAUSED \<longrightarrow>
        (case game_data g of None \<Rightarrow> False
         | Some gd \<Rightarrow> missed_food gd < max_missed_food gd))"


section \<open>Properties of the rounding\<close>

lemma pow2_pos: "0 < pow2 e"
  by (simp add: pow2_def zero_less_power_int)

lemma pow2_Suc: "pow2 (e + 1) = 2 * pow2 e"
  by (simp add: pow2_def power_int_add)

lemma pow2_mono: "a \<le> b \<Longrightarrow> pow2 a \<le> pow2 b"
  by (simp add: pow2_def power_int_increasing)

lemma pow2_nat: "pow2 (int n) = 2 ^ n"
  by (simp add: pow2_def)

lemma pow2_neg_nat: "pow2 (- int n) = 1 / 2 ^ n"
  by (simp add: pow2_def power_int_minus field_simps)

lemma exponent_bounds_ge1:
  assumes "1 \<le> x"
  shows "pow2 (exponent x) \<le> x \<and> x < pow2 (exponent x + 1)"
proof -
  define n where "n = nat \<lfloor>x\<rfloor>"
  have n1: "0 < n" using assms by (simp add: n_def)
  have nx: "of_nat n \<le> x" "x < of_nat n + 1"
  proof -
    have "0 \<le> \<lfloor>x\<rfloor>" using assms by simp
    then have "(of_nat n :: rat) = of_int \<lfloor>x\<rfloor>" by (simp add: n_def)
    then show "of_nat n \<le> x" "x < of_nat n + 1" by linarith+
  qed
  define k where "k = floorlog 2 n"
  have b: "2 ^ (k - 1) \<le> n" "n < 2 ^ k"
    using floorlog_bounds[of n 2] n1 by (auto simp: k_def)
  have k1: "0 < k" using b n1 by (cases k) auto
  have e: "exponent x = int k - 1"
    using assms by (simp add: exponent_def k_def n_def)
  have e': "exponent x = int (k - 1)" using e k1 by simp
  have "pow2 (exponent x) = 2 ^ (k - 1)" unfolding e' by (rule pow2_nat)
  also have "\<dots> \<le> of_nat n" using b(1)
    by (metis of_nat_le_iff of_nat_numeral of_nat_power)
  finally have lo: "pow2 (exponent x) \<le> x" using nx by simp
  have "exponent x + 1 = int k" using e by simp
  then have "pow2 (exponent x + 1) = 2 ^ k" by (simp add: pow2_nat)
  moreover have "Suc n \<le> 2 ^ k" using b(2) by simp
  then have "(of_nat (Suc n) :: rat) \<le> 2 ^ k"
    by (metis of_nat_le_iff of_nat_numeral of_nat_power)
  ultimately have "x < pow2 (exponent x + 1)" using nx by simp
  with lo show ?thesis by simp
qed

lemma exponent_bounds_lt1:
  assumes "0 < x" "x < 1"
  shows "pow2 (exponent x) \<le> x \<and> x < pow2 (exponent x + 1)"
proof -
  define y where "y = 1 / x"
  have y1: "1 < y" using assms by (simp add: y_def)
  define c where "c = \<lceil>y\<rceil>"
  have c2: "2 \<le> c" using y1 unfolding c_def by linarith
  have cy: "y \<le> of_int c" "of_int c - 1 < y" unfolding c_def by linarith+
  define n where "n = nat (c - 1)"
  have n1: "0 < n" using c2 by (simp add: n_def)
  have nc: "int n = c - 1" using c2 by (simp add: n_def)
  define k where "k = floorlog 2 n"
  have b: "2 ^ (k - 1) \<le> n" "n < 2 ^ k"
    using floorlog_bounds[of n 2] n1 by (auto simp: k_def)
  have k1: "0 < k" using b n1 by (cases k) auto
  have e: "exponent x = - int k"
    using assms by (simp add: exponent_def k_def n_def c_def y_def)
  have "Suc n \<le> 2 ^ k" using b(2) by simp
  then have "(of_nat (Suc n) :: rat) \<le> 2 ^ k"
    by (metis of_nat_le_iff of_nat_numeral of_nat_power)
  moreover have "(of_nat (Suc n) :: rat) = of_int c" 
    using nc by (metis add.commute add_diff_cancel_left' of_int_of_nat_eq of_nat_Suc diff_add_cancel of_int_add of_int_1)
  ultimately have "(of_int c :: rat) \<le> 2 ^ k" by (rule subst[where P="\<lambda>t. t \<le> 2 ^ k", rotated])
  then have "y \<le> 2 ^ k" using cy(1) by (rule order_trans[rotated])
  then have "1 / 2 ^ k \<le> x" using assms unfolding y_def
    by (simp add: field_simps)
  then have lo: "pow2 (exponent x) \<le> x" unfolding e by (simp add: pow2_neg_nat)
  have "(2::rat) ^ (k - 1) \<le> of_nat n" using b(1)
    by (metis of_nat_le_iff of_nat_numeral of_nat_power)
  also have "(of_nat n :: rat) = of_int c - 1" using nc
    by (metis of_int_1 of_int_diff of_int_of_nat_eq)
  finally have "2 ^ (k - 1) < y" using cy by simp
  then have "x < 1 / 2 ^ (k - 1)" using assms unfolding y_def
    by (simp add: field_simps)
  moreover have "exponent x + 1 = - int (k - 1)" using e k1 by simp
  ultimately have "x < pow2 (exponent x + 1)" by (simp add: pow2_neg_nat)
  with lo show ?thesis by simp
qed

lemma exponent_bounds:
  "0 < x \<Longrightarrow> pow2 (exponent x) \<le> x \<and> x < pow2 (exponent x + 1)"
  using exponent_bounds_ge1 exponent_bounds_lt1 by (cases "1 \<le> x") auto

lemma pow2_less_cancel: "pow2 a < pow2 b \<Longrightarrow> a < b"
  using pow2_mono[of b a] by (cases "a < b") auto

lemma exponent_unique:
  assumes "pow2 e \<le> x" "x < pow2 (e + 1)"
  shows "exponent x = e"
proof -
  have x0: "0 < x" using assms(1) pow2_pos[of e] by simp
  note b = exponent_bounds[OF x0]
  have "pow2 e < pow2 (exponent x + 1)" using assms b by simp
  then have "e < exponent x + 1" by (rule pow2_less_cancel)
  moreover have "pow2 (exponent x) < pow2 (e + 1)" using assms b by simp
  then have "exponent x < e + 1" by (rule pow2_less_cancel)
  ultimately show ?thesis by simp
qed

lemma round_half_even_nonneg: "0 \<le> x \<Longrightarrow> 0 \<le> round_half_even x"
  by (simp add: round_half_even_def Let_def)

lemma round_half_even_le: "x < of_int N + 1 / 2 \<Longrightarrow> round_half_even x \<le> N"
proof -
  assume a: "x < of_int N + 1 / 2"
  have f: "\<lfloor>x\<rfloor> \<le> N" using a by (simp add: floor_le_iff)
  show ?thesis
  proof (cases "\<lfloor>x\<rfloor> = N")
    case True
    then have "x - of_int \<lfloor>x\<rfloor> < 1 / 2" using a by simp
    then show ?thesis using True by (simp add: round_half_even_def Let_def)
  next
    case False
    then have "\<lfloor>x\<rfloor> + 1 \<le> N" using f by simp
    then show ?thesis using f by (simp add: round_half_even_def Let_def)
  qed
qed

lemma round_half_even_le_int: "x \<le> of_int N \<Longrightarrow> round_half_even x \<le> N"
  by (rule round_half_even_le) simp

lemma fl_nonneg: "0 \<le> x \<Longrightarrow> 0 \<le> fl x"
  using pow2_pos by (auto simp: fl_def Let_def round_half_even_nonneg less_imp_le)

lemma fl_pos_eq:
  "0 < x \<Longrightarrow> fl x = of_int (round_half_even (x / pow2 (exponent x - 52))) * pow2 (exponent x - 52)"
  by (simp add: fl_def Let_def)

lemma fl_le_pow2:
  assumes "0 < x" "x < pow2 E"
  shows "fl x \<le> pow2 E"
proof -
  note b = exponent_bounds[OF assms(1)]
  define e where "e = exponent x"
  have "pow2 e < pow2 E" using b assms by (simp add: e_def)
  then have eE: "e + 1 \<le> E" using pow2_less_cancel by fastforce
  define q where "q = pow2 (e - 52)"
  have q0: "0 < q" by (simp add: q_def pow2_pos)
  have q53: "pow2 (e + 1) = 2 ^ 53 * q"
    unfolding q_def pow2_def by (simp add: power_int_diff power_int_add)
  have "x < 2 ^ 53 * q" using b unfolding e_def[symmetric] q53 by (rule conjunct2)
  then have "x / q < 2 ^ 53" using q0 by (subst pos_divide_less_eq) 
  then have "x / q \<le> 2 ^ 53" by (rule less_imp_le)
  then have "x / q \<le> of_int (2 ^ 53)" by simp
  then have "round_half_even (x / q) \<le> 2 ^ 53" by (rule round_half_even_le_int)
  then have "(of_int (round_half_even (x / q)) :: rat) \<le> 2 ^ 53"
    by (metis of_int_le_iff of_int_numeral of_int_power)
  then have "of_int (round_half_even (x / q)) * q \<le> 2 ^ 53 * q"
    using q0 by simp
  then have "of_int (round_half_even (x / q)) * q \<le> pow2 (e + 1)"
    unfolding q53 .
  moreover have "fl x = of_int (round_half_even (x / q)) * q"
    unfolding q_def e_def using assms(1) by (rule fl_pos_eq)
  ultimately have "fl x \<le> pow2 (e + 1)" by (rule ssubst[where P="\<lambda>t. t \<le> pow2 (e + 1)", rotated])
  also have "\<dots> \<le> pow2 E" using eE by (rule pow2_mono)
  finally show ?thesis .
qed


section \<open>The difficulty progressor keeps the derived parameters\<close>

lemma level_difficulty_1: "level_difficulty 1 = 1" by code_simp
lemma level_special_chance_1: "level_special_chance 1 = fl (15/100)" by code_simp
lemma level_character_speed_1: "level_character_speed 1 = 10" by code_simp
lemma level_spawn_rate_1: "level_spawn_rate 45 1 = 45" by code_simp
lemma fl_1: "fl 1 = 1" by code_simp

lemma derived_ok_new: "derived_ok (new_GameData t)"
  by (simp add: derived_ok_def new_GameData_def level_difficulty_1 level_special_chance_1 level_character_speed_1
      level_spawn_rate_1 fl_1)

lemma round_inv_new: "round_inv (new_GameData t)"
  using derived_ok_new[of t] by (simp add: round_inv_def new_GameData_def fl_1)

lemma update_difficulty_quiet:
  "level_timer gd + 1 < 500 \<Longrightarrow> update_difficulty gd = gd\<lparr>level_timer := level_timer gd + 1\<rparr>"
  by (simp add: update_difficulty_def Let_def)

lemma update_difficulty_levelup:
  "500 \<le> level_timer gd + 1 \<Longrightarrow>
   update_difficulty gd =
     gd\<lparr>level_timer := 0, level := level gd + 1,
        difficulty_multiplier := level_difficulty (level gd + 1),
        current_spawn_rate := level_spawn_rate (base_spawn_rate gd) (level gd + 1),
        special_spawn_chance := level_special_chance (level gd + 1),
        character_speed := level_character_speed (level gd + 1),
        achievement_messages := achievement_messages gd @
          [\<lparr>msg_text = ''Level Up! '' @ str_int (level gd + 1), msg_timer = 120,
            msg_color = (255, 215, 0)\<rparr>]\<rparr>"
  by (simp add: update_difficulty_def Let_def)

lemma derived_ok_update_difficulty: "derived_ok gd \<Longrightarrow> derived_ok (update_difficulty gd)"
  by (cases "level_timer gd + 1 < 500")
     (simp_all add: update_difficulty_quiet update_difficulty_levelup derived_ok_def)


section \<open>The weighted pick\<close>

lemma cum_rare:
  "accumulate [value_weight APPLE, value_weight BANANA, value_weight SPECIAL] =
     [1 / 2, 3602879701896397 / 4503599627370496, 1]"
  by code_simp

lemma cum_plain:
  "accumulate [value_weight APPLE, value_weight BANANA, 0] =
     [1 / 2, 3602879701896397 / 4503599627370496, 3602879701896397 / 4503599627370496]"
  by code_simp

lemma fadd_zero_vals:
  "fadd 1 0 = 1" "fadd (3602879701896397 / 4503599627370496) 0 = 3602879701896397 / 4503599627370496"
  by code_simp+

lemma bisect_0_2:
  "bisect a x 0 2 = (if x < a ! 1 then (if x < a ! 0 then 0 else 1) else 2)"
  by (simp add: bisect.simps[of a x 0 2] bisect.simps[of a x 0 1] bisect.simps[of a x 0 0]
      bisect.simps[of a x 1 1] bisect.simps[of a x 2 2] bisect.simps[of a x 0 "Suc 0"] bisect.simps[of a x "Suc 0" "Suc 0"] Let_def)

lemma random_random_range: "0 \<le> random_random r \<and> random_random r \<le> 1 - 1 / 2 ^ 53"
proof -
  have "r mod 2 ^ 53 < 2 ^ 53" by simp
  then have "r mod 2 ^ 53 \<le> 2 ^ 53 - 1" by linarith
  then have "(of_nat (r mod 2 ^ 53) :: rat) \<le> of_nat (2 ^ 53 - 1)"
    by (rule iffD2[OF of_nat_le_iff])
  then have "(of_nat (r mod 2 ^ 53) :: rat) \<le> 2 ^ 53 - 1" by simp
  then have "(of_nat (r mod 2 ^ 53) :: rat) / 2 ^ 53 \<le> (2 ^ 53 - 1) / 2 ^ 53"
    by (rule divide_right_mono) simp
  then show ?thesis by (simp add: random_random_def)
qed

lemma fl_below_plain_total:
  assumes "0 \<le> x" "x \<le> 3602879701896397 / 4503599627370496 * (1 - 1 / 2 ^ 53)"
  shows "fl x < 3602879701896397 / 4503599627370496"
proof -
  consider "x = 0" | "0 < x" "x < 1 / 2" | "1 / 2 \<le> x" using assms(1) by linarith
  then show ?thesis
  proof cases
    case 1
    then show ?thesis by (simp add: fl_def)
  next
    case 2
    have "pow2 (- 1) = 1 / 2" by (simp add: pow2_def)
    then have "fl x \<le> 1 / 2" using fl_le_pow2[of x "- 1"] 2 by simp
    then show ?thesis by simp
  next
    case 3
    have x1: "x < 1" using assms(2) by simp
    have p1: "pow2 (- 1) = 1 / 2" "pow2 (- 1 + 1) = 1" by (simp_all add: pow2_def)
    have e: "exponent x = - 1"
      by (rule exponent_unique) (use 3 x1 p1 in simp_all)
    have q: "pow2 (exponent x - 52) = 1 / 2 ^ 53"
      unfolding e using pow2_neg_nat[of 53] by simp
    have x0: "0 < x" using 3 by simp
    have flx: "fl x = of_int (round_half_even (x * 2 ^ 53)) / 2 ^ 53"
      using fl_pos_eq[OF x0] unfolding q by simp
    have "x * 2 ^ 53 < of_int 7205759403792793 + 1 / 2"
      using assms(2) by simp
    then have "round_half_even (x * 2 ^ 53) \<le> 7205759403792793"
      by (rule round_half_even_le)
    then have "(of_int (round_half_even (x * 2 ^ 53)) :: rat) \<le> of_int 7205759403792793"
      by (rule iffD2[OF of_int_le_iff])
    then have "fl x \<le> 7205759403792793 / 2 ^ 53"
      unfolding flx by (simp add: divide_right_mono)
    then show ?thesis by simp
  qed
qed

lemma plain_pick_below:
  "fmul (random_random r) (3602879701896397 / 4503599627370496) < 3602879701896397 / 4503599627370496"
  unfolding fmul_def
proof (rule fl_below_plain_total)
  show "0 \<le> random_random r * (3602879701896397 / 4503599627370496)"
    using random_random_range[of r] by simp
  have "random_random r * (3602879701896397 / 4503599627370496) \<le> (1 - 1 / 2 ^ 53) * (3602879701896397 / 4503599627370496)"
    using random_random_range[of r] by (intro mult_right_mono) simp_all
  then show "random_random r * (3602879701896397 / 4503599627370496) \<le> 3602879701896397 / 4503599627370496 * (1 - 1 / 2 ^ 53)"
    by (simp add: mult.commute)
qed


lemma accumulate_spawn_weights:
  "accumulate (spawn_weights c r) =
     (if random_random r < c
      then [1 / 2, 3602879701896397 / 4503599627370496, 1]
      else [1 / 2, 3602879701896397 / 4503599627370496, 3602879701896397 / 4503599627370496])"
proof (cases "random_random r < c")
  case True
  then show ?thesis unfolding spawn_weights_def by (simp only: if_True cum_rare)
next
  case False
  then show ?thesis unfolding spawn_weights_def by (simp only: if_False cum_plain)
qed

lemma choices_plain:
  assumes "\<not> random_random r < c"
  shows "choices [APPLE, BANANA, SPECIAL] (spawn_weights c r) p =
           Inr (if fmul (random_random p) (3602879701896397 / 4503599627370496) < 1 / 2
                then APPLE else BANANA)"
  using assms plain_pick_below[of p]
  by (simp add: choices_def accumulate_spawn_weights fadd_zero_vals bisect_0_2 Let_def)

lemma choices_rare:
  assumes "random_random r < c"
  shows "\<exists>t. choices [APPLE, BANANA, SPECIAL] (spawn_weights c r) p = Inr t"
  using assms
  by (simp add: choices_def accumulate_spawn_weights fadd_zero_vals Let_def)

lemma choices_spawn:
  "\<exists>t. choices [APPLE, BANANA, SPECIAL] (spawn_weights c r) p = Inr t \<and>
       (t = SPECIAL \<longrightarrow> random_random r < c)"
proof (cases "random_random r < c")
  case True
  then show ?thesis using choices_rare[OF True, of p] by auto
next
  case False
  then show ?thesis by (simp add: choices_plain)
qed

lemma randint_ok:
  assumes "a \<le> b"
  shows "\<exists>v. randint a b r = Inr v \<and> a \<le> v \<and> v \<le> b"
proof -
  have "0 < b - a + 1" using assms by simp
  then have "0 \<le> int r mod (b - a + 1)" "int r mod (b - a + 1) < b - a + 1"
    by (rule pos_mod_sign, rule pos_mod_bound)
  then have "a \<le> a + int r mod (b - a + 1)" "a + int r mod (b - a + 1) \<le> b"
    by linarith+
  then show ?thesis using assms by (simp add: randint_def)
qed

lemma choice_two:
  "\<exists>v. choice [p, q] r = Inr v \<and> (v = p \<or> v = q)"
proof -
  have "length [p, q] = 2" by simp
  moreover have "r mod 2 = 0 \<or> r mod 2 = Suc 0" by linarith
  ultimately have "r mod length [p, q] = 0 \<or> r mod length [p, q] = Suc 0" by (simp only:)
  then show ?thesis unfolding choice_def by (elim disjE) (simp_all del: length_Cons list.size)
qed

lemma clamp_x_range: "200 \<le> w \<Longrightarrow> 100 \<le> clamp_x w x \<and> clamp_x w x \<le> w - 100"
  by (simp add: clamp_x_def)

lemma choose_spawn_x_ok:
  "\<exists>x. choose_spawn_x w px d = Inr x \<and> (700 \<le> w \<longrightarrow> 100 \<le> x \<and> x \<le> w - 100)"
proof -
  consider "px < 300" | "\<not> px < 300" "w - 300 < px" | "\<not> px < 300" "\<not> w - 300 < px"
    by blast
  then show ?thesis
  proof cases
    case 1
    obtain v where "randint 200 600 (x_draw d) = Inr v" "200 \<le> v" "v \<le> 600"
      using randint_ok[of 200 600 "x_draw d"] by auto
    then show ?thesis using 1 by (simp add: choose_spawn_x_def)
  next
    case 2
    obtain v where "randint (w - 600) (w - 200) (x_draw d) = Inr v" "w - 600 \<le> v" "v \<le> w - 200"
      using randint_ok[of "w - 600" "w - 200" "x_draw d"] by auto
    then show ?thesis using 2 by (simp add: choose_spawn_x_def)
  next
    case 3
    then have le: "max 100 (px - 200) \<le> min (w - 100) (px + 200)" by simp
    obtain v where v: "randint (max 100 (px - 200)) (min (w - 100) (px + 200)) (x_draw d) = Inr v"
      "max 100 (px - 200) \<le> v" "v \<le> min (w - 100) (px + 200)"
      using randint_ok[OF le, of "x_draw d"] by auto
    obtain off where off: "choice [- 200, 200] (offset_draw d) = Inr (off::int)"
      using choice_two[of "- 200" 200 "offset_draw d"] by auto
    have w: "600 \<le> w" using 3 by simp
    show ?thesis using 3 v off clamp_x_range[of w "v + off"] w
      by (simp add: choose_spawn_x_def Let_def)
  qed
qed

lemma choose_spawn_x_mid:
  assumes "\<not> random_random (offset_chance_draw d) < fl (2 / 10)"
  shows "\<exists>x. choose_spawn_x 1200 500 d = Inr x \<and> 300 \<le> x \<and> x \<le> 700"
proof -
  obtain v where "randint 300 700 (x_draw d) = Inr v" "300 \<le> v" "v \<le> 700"
    using randint_ok[of 300 700 "x_draw d"] by auto
  then show ?thesis using assms by (simp add: choose_spawn_x_def Let_def)
qed

lemma avoid_overlap_ok:
  "\<exists>y. avoid_overlap w nd k fs x = Inr y \<and>
       (200 \<le> w \<longrightarrow> 100 \<le> x \<and> x \<le> w - 100 \<longrightarrow> 100 \<le> y \<and> y \<le> w - 100) \<and>
       ((\<forall>f \<in> set fs. \<not> \<bar>centerx (rect f) - x\<bar> < 60) \<longrightarrow> y = x)"
proof (induction fs arbitrary: k x)
  case Nil
  then show ?case by simp
next
  case (Cons f fs)
  show ?case
  proof (cases "\<bar>centerx (rect f) - x\<bar> < 60")
    case True
    obtain st where st: "choice [- 50, 50] (nd k) = Inr (st::int)"
      using choice_two[of "- 50" 50 "nd k"] by auto
    from Cons.IH[of "Suc k" "clamp_x w (x + st)"] obtain y where
      y: "avoid_overlap w nd (Suc k) fs (clamp_x w (x + st)) = Inr y"
         "200 \<le> w \<longrightarrow> 100 \<le> clamp_x w (x + st) \<and> clamp_x w (x + st) \<le> w - 100 \<longrightarrow> 100 \<le> y \<and> y \<le> w - 100"
      by blast
    show ?thesis using True st y clamp_x_range[of w "x + st"] by simp
  next
    case False
    from Cons.IH[of "Suc k" x] show ?thesis using False by simp
  qed
qed

lemma spawn_food_result:
  "\<exists>f. spawn_food w cr d gd = Inr (gd\<lparr>food_objects := food_objects gd @ [f]\<rparr>) \<and>
       choices [APPLE, BANANA, SPECIAL]
         (spawn_weights (special_spawn_chance gd) (rare_draw d)) (pick_draw d) = Inr (ftype f) \<and>
       speed f = fmul (value_speed (ftype f)) (difficulty_multiplier gd) \<and>
       (ftype f = SPECIAL \<longrightarrow> random_random (rare_draw d) < special_spawn_chance gd) \<and>
       (700 \<le> w \<longrightarrow> 100 \<le> r_x (rect f) \<and> r_x (rect f) \<le> w - 100) \<and>
       r_w (rect f) = fst (value_size (ftype f)) \<and> r_h (rect f) = snd (value_size (ftype f))"
proof -
  obtain t where t: "choices [APPLE, BANANA, SPECIAL]
      (spawn_weights (special_spawn_chance gd) (rare_draw d)) (pick_draw d) = Inr t"
    "t = SPECIAL \<longrightarrow> random_random (rare_draw d) < special_spawn_chance gd"
    using choices_spawn by blast
  obtain x where x: "choose_spawn_x w (centerx cr) d = Inr x"
    "700 \<le> w \<longrightarrow> 100 \<le> x \<and> x \<le> w - 100"
    using choose_spawn_x_ok by blast
  obtain y where y: "randint (- 70) (- 40) (y_draw d) = Inr y"
    using randint_ok[of "- 70" "- 40" "y_draw d"] by auto
  obtain z where z: "avoid_overlap w (nudge_draws d) 0 (food_objects gd) x = Inr z"
    "200 \<le> w \<longrightarrow> 100 \<le> x \<and> x \<le> w - 100 \<longrightarrow> 100 \<le> z \<and> z \<le> w - 100"
    using avoid_overlap_ok[of w "nudge_draws d" 0 "food_objects gd" x] by blast
  let ?f = "\<lparr>img = \<lparr>surf_id = new_surface d, surf_size = value_size t\<rparr>,
             rect = get_rect_topleft (value_size t) (z, y), ftype = t,
             speed = fmul (value_speed t) (difficulty_multiplier gd)\<rparr>"
  have "spawn_food w cr d gd = Inr (gd\<lparr>food_objects := food_objects gd @ [?f]\<rparr>)"
    using t(1) x(1) y z(1) by (simp add: spawn_food_def Let_def)
  moreover have "700 \<le> w \<longrightarrow> 100 \<le> z \<and> z \<le> w - 100" using x(2) z(2) by simp
  ultimately show ?thesis using t
    by (intro exI[of _ ?f]) (simp add: get_rect_topleft_def)
qed



lemma fl_2_10: "fl (1 / 5) = 3602879701896397 / 18014398509481984"
  by code_simp

lemma random_random_top: "random_random (9007199254740991) = 9007199254740991 / 9007199254740992"
  by (simp add: random_random_def)

lemma random_random_0: "random_random 0 = 0"
  by (simp add: random_random_def)

lemma value_weight_pos: "0 < value_weight APPLE \<and> 0 < value_weight BANANA"
  by code_simp

lemma fl_3_20_pos: "0 < fl (3 / 20)"
  by code_simp

lemma fmul_top_1: "fmul (9007199254740991 / 9007199254740992) 1 = 9007199254740991 / 9007199254740992"
  by code_simp

lemma choices_special_example:
  "choices [APPLE, BANANA, SPECIAL] (spawn_weights (fl (3 / 20)) 0) 9007199254740991 = Inr SPECIAL"
  using fl_3_20_pos
  by (simp add: choices_def accumulate_spawn_weights random_random_0 random_random_top
      fadd_zero_vals bisect_0_2 fmul_top_1 Let_def)

lemma fl_3_20_val: "fl (3 / 20) = 5404319552844595 / 36028797018963968"
  by code_simp

lemma fmul_zero_plain: "fmul 0 (3602879701896397 / 4503599627370496) = 0"
  by code_simp

lemma apple_speed_level_1: "fmul (fl (6 / 5)) 1 = 5404319552844595 / 4503599627370496"
  by code_simp


section \<open>Claims about the spawn engine\<close>

text \<open>
  Claim C5, as stated, fails for a narrow field. On a field 600 wide with the player at
  the left edge (centre x = 45), the left-hand placement branch draws x from 200 to 600
  and nothing clamps it: the draw 600 spawns the item at x = 600, above 600 - 100.
\<close>

theorem spawn_x_in_range_counterexample:
  "spawn_food 600 \<lparr>r_x = 0, r_y = 355, r_w = 90, r_h = 150\<rparr>
     \<lparr>rare_draw = 9007199254740991, pick_draw = 0, x_draw = 400, offset_chance_draw = 0,
      offset_draw = 0, y_draw = 0, nudge_draws = (\<lambda>k. 0), new_surface = 1\<rparr>
     (new_GameData 0) =
   Inr ((new_GameData 0)\<lparr>food_objects :=
          [\<lparr>img = \<lparr>surf_id = 1, surf_size = (60, 60)\<rparr>,
            rect = \<lparr>r_x = 600, r_y = - 70, r_w = 60, r_h = 60\<rparr>,
            ftype = APPLE, speed = 5404319552844595 / 4503599627370496\<rparr>]\<rparr>) \<and>
   \<not> r_x \<lparr>r_x = 600, r_y = - 70, r_w = 60, r_h = 60\<rparr> \<le> 600 - 100"
proof -
  have rare: "\<not> random_random 9007199254740991 < fl (3 / 20)"
    by (simp add: random_random_top fl_3_20_val)
  have pick: "choices [APPLE, BANANA, SPECIAL] (spawn_weights (fl (3 / 20)) 9007199254740991) 0
      = Inr APPLE"
    using choices_plain[OF rare, of 0] by (simp add: random_random_0 fmul_zero_plain)
  have x: "choose_spawn_x 600 45 \<lparr>rare_draw = 9007199254740991, pick_draw = 0, x_draw = 400,
      offset_chance_draw = 0, offset_draw = 0, y_draw = 0, nudge_draws = (\<lambda>k. 0),
      new_surface = 1\<rparr> = Inr 600"
    by (simp add: choose_spawn_x_def randint_def)
  have y: "randint (- 70) (- 40) 0 = Inr (- 70)" by (simp add: randint_def)
  show ?thesis
    using pick x y
    by (simp add: spawn_food_def new_GameData_def centerx_def get_rect_topleft_def
        apple_speed_level_1 fl_1 Let_def)
qed

text \<open>
  Claim C5, amended. With the player at x = 500 on a field 1200 wide, the x chosen by the
  placement policy lies in [300, 700] whenever the one-in-five extra offset does not fire;
  and on every field at least 700 wide (the default 1200 included), for every player
  position and every outcome of the draws (offset and overlap nudges included), the
  spawned item's final x lies in [100, width - 100].
\<close>

theorem spawn_x_in_range:
  "(centerx cr = 500 \<and> \<not> random_random (offset_chance_draw d) < fl (2 / 10) \<longrightarrow>
      (\<exists>x. choose_spawn_x 1200 (centerx cr) d = Inr x \<and> 300 \<le> x \<and> x \<le> 700)) \<and>
   (700 \<le> w \<longrightarrow>
      (\<exists>f. spawn_food w cr d gd = Inr (gd\<lparr>food_objects := food_objects gd @ [f]\<rparr>) \<and>
           100 \<le> r_x (rect f) \<and> r_x (rect f) \<le> w - 100))"
proof
  show "centerx cr = 500 \<and> \<not> random_random (offset_chance_draw d) < fl (2 / 10) \<longrightarrow>
      (\<exists>x. choose_spawn_x 1200 (centerx cr) d = Inr x \<and> 300 \<le> x \<and> x \<le> 700)"
    using choose_spawn_x_mid[of d] by auto
  obtain f where "spawn_food w cr d gd = Inr (gd\<lparr>food_objects := food_objects gd @ [f]\<rparr>)"
    "700 \<le> w \<longrightarrow> 100 \<le> r_x (rect f) \<and> r_x (rect f) \<le> w - 100"
    using spawn_food_result[of w cr d gd] by blast
  then show "700 \<le> w \<longrightarrow>
      (\<exists>f. spawn_food w cr d gd = Inr (gd\<lparr>food_objects := food_objects gd @ [f]\<rparr>) \<and>
           100 \<le> r_x (rect f) \<and> r_x (rect f) \<le> w - 100)"
    by (intro impI exI[of _ f]) simp
qed

theorem spawn_x_in_range_witness:
  "centerx \<lparr>r_x = 455, r_y = 555, r_w = 90, r_h = 150\<rparr> = 500 \<and>
   \<not> random_random (offset_chance_draw
        \<lparr>rare_draw = 0, pick_draw = 0, x_draw = 7, offset_chance_draw = 9007199254740991,
         offset_draw = 0, y_draw = 3, nudge_draws = (\<lambda>k. 0), new_surface = 1\<rparr>) < fl (2 / 10) \<and>
   (\<exists>x. choose_spawn_x 1200 (centerx \<lparr>r_x = 455, r_y = 555, r_w = 90, r_h = 150\<rparr>)
          \<lparr>rare_draw = 0, pick_draw = 0, x_draw = 7, offset_chance_draw = 9007199254740991,
           offset_draw = 0, y_draw = 3, nudge_draws = (\<lambda>k. 0), new_surface = 1\<rparr> = Inr x \<and>
        300 \<le> x \<and> x \<le> 700) \<and>
   700 \<le> (1200::int) \<and>
   (\<exists>f. spawn_food 1200 \<lparr>r_x = 455, r_y = 555, r_w = 90, r_h = 150\<rparr>
          \<lparr>rare_draw = 0, pick_draw = 0, x_draw = 7, offset_chance_draw = 9007199254740991,
           offset_draw = 0, y_draw = 3, nudge_draws = (\<lambda>k. 0), new_surface = 1\<rparr>
          (new_GameData 0) =
         Inr ((new_GameData 0)\<lparr>food_objects := food_objects (new_GameData 0) @ [f]\<rparr>) \<and>
       100 \<le> r_x (rect f) \<and> r_x (rect f) \<le> 1200 - 100)"
proof -
  let ?cr = "\<lparr>r_x = 455, r_y = 555, r_w = 90, r_h = 150\<rparr>"
  let ?d = "\<lparr>rare_draw = 0, pick_draw = 0, x_draw = 7, offset_chance_draw = 9007199254740991,
         offset_draw = 0, y_draw = 3, nudge_draws = (\<lambda>k. 0), new_surface = 1\<rparr>"
  have a: "centerx ?cr = 500" by (simp add: centerx_def)
  have b: "\<not> random_random (offset_chance_draw ?d) < fl (2 / 10)"
    by (simp add: random_random_top fl_2_10)
  have w: "700 \<le> (1200::int)" by simp
  note t = spawn_x_in_range[of ?cr ?d 1200 "new_GameData 0"]
  have c: "\<exists>x. choose_spawn_x 1200 (centerx ?cr) ?d = Inr x \<and> 300 \<le> x \<and> x \<le> 700"
    using t a b by blast
  have e: "\<exists>f. spawn_food 1200 ?cr ?d (new_GameData 0) =
         Inr ((new_GameData 0)\<lparr>food_objects := food_objects (new_GameData 0) @ [f]\<rparr>) \<and>
       100 \<le> r_x (rect f) \<and> r_x (rect f) \<le> 1200 - 100"
    using t w by blast
  show ?thesis using a b c w e by (intro conjI)
qed


text \<open>
  Claim C6. Every spawn, whatever the draws, returns normally and appends exactly one item;
  the item's fall speed is the variant's base speed times the current difficulty
  multiplier; the variant is the weighted pick among the three catalog variants where Apple
  and Banana keep their fixed positive weights and Special has its catalog weight only if
  the separate uniform draw is below the special spawn chance and weight 0 otherwise; and
  Special is picked only if that draw succeeded.
\<close>

theorem spawn_food_appends_one_item:
  "\<exists>f. spawn_food w cr d gd = Inr (gd\<lparr>food_objects := food_objects gd @ [f]\<rparr>) \<and>
       speed f = fmul (value_speed (ftype f)) (difficulty_multiplier gd) \<and>
       choices [APPLE, BANANA, SPECIAL]
         (spawn_weights (special_spawn_chance gd) (rare_draw d)) (pick_draw d) = Inr (ftype f) \<and>
       spawn_weights (special_spawn_chance gd) (rare_draw d) =
         [value_weight APPLE, value_weight BANANA,
          if random_random (rare_draw d) < special_spawn_chance gd
          then value_weight SPECIAL else 0] \<and>
       0 < value_weight APPLE \<and> 0 < value_weight BANANA \<and>
       (ftype f = SPECIAL \<longrightarrow> random_random (rare_draw d) < special_spawn_chance gd)"
proof -
  obtain f where f: "spawn_food w cr d gd = Inr (gd\<lparr>food_objects := food_objects gd @ [f]\<rparr>)"
    "choices [APPLE, BANANA, SPECIAL]
         (spawn_weights (special_spawn_chance gd) (rare_draw d)) (pick_draw d) = Inr (ftype f)"
    "speed f = fmul (value_speed (ftype f)) (difficulty_multiplier gd)"
    "ftype f = SPECIAL \<longrightarrow> random_random (rare_draw d) < special_spawn_chance gd"
    using spawn_food_result[of w cr d gd] by blast
  show ?thesis
    using f value_weight_pos
    by (intro exI[of _ f]) (simp add: spawn_weights_def del: value_weight.simps)
qed

theorem spawn_food_appends_one_item_witness:
  "\<exists>f. spawn_food 1200 \<lparr>r_x = 555, r_y = 555, r_w = 90, r_h = 150\<rparr>
          \<lparr>rare_draw = 0, pick_draw = 9007199254740991, x_draw = 7, offset_chance_draw = 0,
           offset_draw = 0, y_draw = 3, nudge_draws = (\<lambda>k. 0), new_surface = 1\<rparr>
          (new_GameData 0) =
         Inr ((new_GameData 0)\<lparr>food_objects := food_objects (new_GameData 0) @ [f]\<rparr>) \<and>
       ftype f = SPECIAL \<and>
       random_random (rare_draw
          \<lparr>rare_draw = 0, pick_draw = 9007199254740991, x_draw = 7, offset_chance_draw = 0,
           offset_draw = 0, y_draw = 3, nudge_draws = (\<lambda>k. 0), new_surface = 1\<rparr>)
         < special_spawn_chance (new_GameData 0)"
proof -
  let ?d = "\<lparr>rare_draw = 0, pick_draw = 9007199254740991, x_draw = 7, offset_chance_draw = 0,
           offset_draw = 0, y_draw = 3, nudge_draws = (\<lambda>k. 0), new_surface = 1\<rparr>"
  let ?cr = "\<lparr>r_x = 555, r_y = 555, r_w = 90, r_h = 150\<rparr>"
  obtain f where f:
    "spawn_food 1200 ?cr ?d (new_GameData 0) =
       Inr ((new_GameData 0)\<lparr>food_objects := food_objects (new_GameData 0) @ [f]\<rparr>)"
    "choices [APPLE, BANANA, SPECIAL]
       (spawn_weights (special_spawn_chance (new_GameData 0)) (rare_draw ?d)) (pick_draw ?d)
       = Inr (ftype f)"
    "ftype f = SPECIAL \<longrightarrow>
       random_random (rare_draw ?d) < special_spawn_chance (new_GameData 0)"
    using spawn_food_appends_one_item[of 1200 ?cr ?d "new_GameData 0"] by blast
  have "special_spawn_chance (new_GameData 0) = fl (3 / 20)"
    by (simp add: new_GameData_def)
  then have "ftype f = SPECIAL" using f(2) choices_special_example by simp
  then show ?thesis using f(1,3) by (intro exI[of _ f]) simp
qed


lemma float_of_int_nonneg: "0 \<le> n \<Longrightarrow> 0 \<le> float_of_int n"
  by (simp add: float_of_int_def fl_nonneg)

lemma fmul_nonneg: "0 \<le> a \<Longrightarrow> 0 \<le> b \<Longrightarrow> 0 \<le> fmul a b"
  by (simp add: fmul_def fl_nonneg)

lemma fadd_nonneg: "0 \<le> a \<Longrightarrow> 0 \<le> b \<Longrightarrow> 0 \<le> fadd a b"
  by (simp add: fadd_def fl_nonneg)

lemma fl_15_100_nonneg: "0 \<le> fl (15 / 100)"
  by code_simp

lemma float_of_int_1: "float_of_int 1 = 1"
  by code_simp

lemma combo_multiplier_nonneg: "0 \<le> c \<Longrightarrow> 0 \<le> combo_multiplier c"
  unfolding combo_multiplier_def float_of_int_1
  by (intro min.boundedI fadd_nonneg fmul_nonneg float_of_int_nonneg fl_15_100_nonneg) simp_all

lemma value_points_pos: "0 < value_points t"
  by (cases t) simp_all

lemma catch_points_floor:
  assumes "0 \<le> c" "0 \<le> sm"
  shows "catch_points t c sm =
           \<lfloor>fmul (fmul (float_of_int (value_points t)) (combo_multiplier c)) sm\<rfloor>"
    and "0 \<le> catch_points t c sm"
proof -
  have "0 \<le> value_points t" using value_points_pos[of t] by simp
  then have nn: "0 \<le> fmul (fmul (float_of_int (value_points t)) (combo_multiplier c)) sm"
    using assms by (intro fmul_nonneg float_of_int_nonneg combo_multiplier_nonneg)
  then show "catch_points t c sm =
           \<lfloor>fmul (fmul (float_of_int (value_points t)) (combo_multiplier c)) sm\<rfloor>"
    by (simp add: catch_points_def py_int_def)
  then show "0 \<le> catch_points t c sm" using nn by simp
qed

lemma handle_collision_fields:
  "combo (fst (handle_collision gd food)) = combo gd + 1"
  "max_combo (fst (handle_collision gd food)) = max (max_combo gd) (combo gd + 1)"
  "snd (handle_collision gd food) =
     catch_points (ftype food) (combo gd + 1) (score_multiplier gd)"
  "score (fst (handle_collision gd food)) = score gd + snd (handle_collision gd food)"
  "total_catches (fst (handle_collision gd food)) = total_catches gd + 1"
  "food_objects (fst (handle_collision gd food)) = remove1 food (food_objects gd)"
  "missed_food (fst (handle_collision gd food)) = missed_food gd"
  "max_missed_food (fst (handle_collision gd food)) = max_missed_food gd"
  "score_multiplier (fst (handle_collision gd food)) = score_multiplier gd"
  "game_over (fst (handle_collision gd food)) = game_over gd"
  "level (fst (handle_collision gd food)) = level gd"
  "level_timer (fst (handle_collision gd food)) = level_timer gd"
  "spawn_timer (fst (handle_collision gd food)) = spawn_timer gd"
  "base_spawn_rate (fst (handle_collision gd food)) = base_spawn_rate gd"
  "difficulty_multiplier (fst (handle_collision gd food)) = difficulty_multiplier gd"
  "current_spawn_rate (fst (handle_collision gd food)) = current_spawn_rate gd"
  "special_spawn_chance (fst (handle_collision gd food)) = special_spawn_chance gd"
  "character_speed (fst (handle_collision gd food)) = character_speed gd"
  by (simp_all add: handle_collision_def Let_def)

lemma handle_collision_queues:
  "score_popups (fst (handle_collision gd food)) = score_popups gd @
     [\<lparr>popup_text = CHR ''+'' # str_int (snd (handle_collision gd food)),
       popup_pos = (centerx (rect food), centery (rect food)),
       popup_timer = 60, popup_color = value_color (ftype food)\<rparr>]"
  "achievement_messages (fst (handle_collision gd food)) =
     (if combo gd = 9
      then achievement_messages gd @
             [\<lparr>msg_text = ''Super Combo!'', msg_timer = 120, msg_color = (255, 165, 0)\<rparr>]
      else achievement_messages gd)"
  by (simp_all add: handle_collision_def Let_def)

lemma combo_multiplier_10: "combo_multiplier 10 = 5 / 2"
  by code_simp

lemma catch_points_common_first: "catch_points APPLE 1 1 = 1"
  by code_simp

lemma round_inv_handle_collision:
  "round_inv gd \<Longrightarrow> round_inv (fst (handle_collision gd food))"
  by (auto simp: round_inv_def derived_ok_def handle_collision_fields dest: notin_set_remove1)


text \<open>
  Claim C2. A catch in a state with a non-negative combo count and score multiplier (as
  every state of a round has) increments the combo count by 1, makes the maximum combo the
  larger of its old value and the new combo count, uses the combo multiplier
  min(4, 1 + combo * 0.15) at the new combo count, awards the floor of
  points * combo multiplier * score multiplier (in double arithmetic), adds exactly these
  points to the score, increments the catch total by 1, and appends exactly one
  "Super Combo!" banner if and only if the new combo count is 10, where the combo
  multiplier is 2.5.
\<close>

theorem handle_collision_scoring:
  assumes "0 \<le> combo gd" and "0 \<le> score_multiplier gd"
  shows "combo (fst (handle_collision gd food)) = combo gd + 1 \<and>
         max_combo (fst (handle_collision gd food)) = max (max_combo gd) (combo gd + 1) \<and>
         combo_multiplier (combo gd + 1) =
           min 4 (fadd 1 (fmul (float_of_int (combo gd + 1)) (fl (15 / 100)))) \<and>
         snd (handle_collision gd food) =
           \<lfloor>fmul (fmul (float_of_int (value_points (ftype food)))
                    (combo_multiplier (combo gd + 1))) (score_multiplier gd)\<rfloor> \<and>
         score (fst (handle_collision gd food)) = score gd + snd (handle_collision gd food) \<and>
         total_catches (fst (handle_collision gd food)) = total_catches gd + 1 \<and>
         achievement_messages (fst (handle_collision gd food)) =
           (if combo gd + 1 = 10
            then achievement_messages gd @
                   [\<lparr>msg_text = ''Super Combo!'', msg_timer = 120, msg_color = (255, 165, 0)\<rparr>]
            else achievement_messages gd) \<and>
         combo_multiplier 10 = 5 / 2"
proof -
  have c: "0 \<le> combo gd + 1" using assms(1) by simp
  have "snd (handle_collision gd food) =
           \<lfloor>fmul (fmul (float_of_int (value_points (ftype food)))
                    (combo_multiplier (combo gd + 1))) (score_multiplier gd)\<rfloor>"
    unfolding handle_collision_fields(3) using c assms(2) by (rule catch_points_floor(1))
  moreover have "combo_multiplier (combo gd + 1) =
           min 4 (fadd 1 (fmul (float_of_int (combo gd + 1)) (fl (15 / 100))))"
    unfolding combo_multiplier_def float_of_int_1 ..
  moreover have "(combo gd + 1 = 10) = (combo gd = 9)" by auto
  ultimately show ?thesis
    using combo_multiplier_10
    by (simp only: handle_collision_fields(1,2,4,5) handle_collision_queues(2) simp_thms)
qed

theorem handle_collision_scoring_witness:
  "0 \<le> combo ((new_GameData 0)\<lparr>combo := 9\<rparr>) \<and>
   0 \<le> score_multiplier ((new_GameData 0)\<lparr>combo := 9\<rparr>) \<and>
   combo (fst (handle_collision ((new_GameData 0)\<lparr>combo := 9\<rparr>)
     \<lparr>img = \<lparr>surf_id = 1, surf_size = (60, 60)\<rparr>,
      rect = \<lparr>r_x = 600, r_y = 500, r_w = 60, r_h = 60\<rparr>, ftype = APPLE, speed = 1\<rparr>)) = 10 \<and>
   achievement_messages (fst (handle_collision ((new_GameData 0)\<lparr>combo := 9\<rparr>)
     \<lparr>img = \<lparr>surf_id = 1, surf_size = (60, 60)\<rparr>,
      rect = \<lparr>r_x = 600, r_y = 500, r_w = 60, r_h = 60\<rparr>, ftype = APPLE, speed = 1\<rparr>)) =
     [\<lparr>msg_text = ''Super Combo!'', msg_timer = 120, msg_color = (255, 165, 0)\<rparr>]"
proof -
  have a: "0 \<le> combo ((new_GameData 0)\<lparr>combo := 9\<rparr>)" by simp
  have b: "0 \<le> score_multiplier ((new_GameData 0)\<lparr>combo := 9\<rparr>)"
    by (simp add: new_GameData_def fl_1)
  show ?thesis
    using a b handle_collision_scoring[OF a b,
      of "\<lparr>img = \<lparr>surf_id = 1, surf_size = (60, 60)\<rparr>,
      rect = \<lparr>r_x = 600, r_y = 500, r_w = 60, r_h = 60\<rparr>, ftype = APPLE, speed = 1\<rparr>"]
    by (simp add: new_GameData_def)
qed


lemma visit_food_unfold:
  "visit_food cr hgt n s =
     (let live = food_objects (snd s);
          i = length live - Suc n;
          food = move_down (live ! i);
          gd1 = (snd s)\<lparr>food_objects := live[i := food]\<rparr>
      in if colliderect (rect food) cr then (fst s, fst (handle_collision gd1 food))
         else if hgt < rect_top (rect food) then
           (if max_missed_food (snd s) \<le> missed_food (snd s) + 1
            then (GAME_OVER, gd1\<lparr>food_objects := remove1 food (live[i := food]),
                               missed_food := missed_food (snd s) + 1, combo := 0,
                               game_over := True\<rparr>)
            else (fst s, gd1\<lparr>food_objects := remove1 food (live[i := food]),
                             missed_food := missed_food (snd s) + 1, combo := 0\<rparr>))
         else (fst s, gd1))"
  by (simp add: visit_food_def Let_def)

lemma move_down_fields:
  "r_h (rect (move_down f)) = r_h (rect f)" "r_w (rect (move_down f)) = r_w (rect f)"
  "r_x (rect (move_down f)) = r_x (rect f)" "ftype (move_down f) = ftype f"
  "speed (move_down f) = speed f" "img (move_down f) = img f"
  by (simp_all add: move_down_def)

lemma heights_list_update:
  assumes "\<forall>f \<in> set live. 0 \<le> r_h (rect f)"
  shows "\<forall>f \<in> set (live[i := move_down (live ! i)]). 0 \<le> r_h (rect f)"
proof (cases "i < length live")
  case True
  then have "0 \<le> r_h (rect (move_down (live ! i)))"
    using assms by (simp add: move_down_fields)
  then show ?thesis using assms set_update_subset_insert[of live i "move_down (live ! i)"]
    by auto
next
  case False
  then have "live[i := move_down (live ! i)] = live" by (intro list_update_beyond) simp
  then show ?thesis using assms by simp
qed

lemma visit_food_inv:
  assumes "loop_inv s"
  shows "loop_inv (visit_food cr hgt n s)"
    and "score (snd s) \<le> score (snd (visit_food cr hgt n s))"
    and "level (snd (visit_food cr hgt n s)) = level (snd s)"
    and "level_timer (snd (visit_food cr hgt n s)) = level_timer (snd s)"
proof -
  let ?live = "food_objects (snd s)"
  let ?i = "length ?live - Suc n"
  let ?food = "move_down (?live ! ?i)"
  let ?gd1 = "(snd s)\<lparr>food_objects := ?live[?i := ?food]\<rparr>"
  have ri: "round_inv (snd s)" using assms by (simp add: loop_inv_def)
  then have ri1: "round_inv ?gd1"
    using heights_list_update[of ?live ?i] by (simp add: round_inv_def derived_ok_def)
  have pts: "0 \<le> snd (handle_collision ?gd1 ?food)"
    unfolding handle_collision_fields(3)
    using ri by (intro catch_points_floor(2)) (simp_all add: round_inv_def)
  consider (catch) "colliderect (rect ?food) cr"
    | (miss) "\<not> colliderect (rect ?food) cr" "hgt < rect_top (rect ?food)"
    | (fall) "\<not> colliderect (rect ?food) cr" "\<not> hgt < rect_top (rect ?food)"
    by blast
  then have "loop_inv (visit_food cr hgt n s) \<and>
    score (snd s) \<le> score (snd (visit_food cr hgt n s)) \<and>
    level (snd (visit_food cr hgt n s)) = level (snd s) \<and>
    level_timer (snd (visit_food cr hgt n s)) = level_timer (snd s)"
  proof cases
    case catch
    then have v: "visit_food cr hgt n s = (fst s, fst (handle_collision ?gd1 ?food))"
      by (simp add: visit_food_unfold Let_def)
    show ?thesis unfolding v
      using assms pts round_inv_handle_collision[OF ri1, of ?food]
      by (auto simp: loop_inv_def handle_collision_fields)
  next
    case miss
    have h: "\<forall>f \<in> set (remove1 ?food (?live[?i := ?food])). 0 \<le> r_h (rect f)"
      using ri1 set_remove1_subset[of ?food "?live[?i := ?food]"]
      by (auto simp: round_inv_def)
    show ?thesis
      using assms miss h
      by (auto simp: visit_food_unfold Let_def loop_inv_def round_inv_def derived_ok_def)
  next
    case fall
    then have v: "visit_food cr hgt n s = (fst s, ?gd1)"
      by (simp add: visit_food_unfold Let_def)
    show ?thesis unfolding v using assms ri1 by (auto simp: loop_inv_def)
  qed
  then show "loop_inv (visit_food cr hgt n s)"
    and "score (snd s) \<le> score (snd (visit_food cr hgt n s))"
    and "level (snd (visit_food cr hgt n s)) = level (snd s)"
    and "level_timer (snd (visit_food cr hgt n s)) = level_timer (snd s)"
    by simp_all
qed

lemma update_foods_inv:
  "loop_inv s \<Longrightarrow>
   loop_inv (update_foods cr hgt snap s) \<and>
   score (snd s) \<le> score (snd (update_foods cr hgt snap s)) \<and>
   level (snd (update_foods cr hgt snap s)) = level (snd s) \<and>
   level_timer (snd (update_foods cr hgt snap s)) = level_timer (snd s)"
proof (induction snap arbitrary: s)
  case Nil
  then show ?case by simp
next
  case (Cons f rest)
  note v = visit_food_inv[OF Cons.prems, of cr hgt "length rest"]
  from Cons.IH[OF v(1)] v(2,3,4) show ?case by simp
qed


lemma move_character_fixed:
  "r_y (move_character inp w spd cr) = r_y cr"
  "r_h (move_character inp w spd cr) = r_h cr"
  "r_w (move_character inp w spd cr) = r_w cr"
  by (simp_all add: move_character_def Let_def)

lemma rect_bottom_move_character:
  "rect_bottom (move_character inp w spd cr) = rect_bottom cr"
  by (simp add: rect_bottom_def move_character_fixed)

lemma round_inv_update_difficulty: "round_inv gd \<Longrightarrow> round_inv (update_difficulty gd)"
proof -
  assume a: "round_inv gd"
  then have "derived_ok (update_difficulty gd)"
    by (simp add: round_inv_def derived_ok_update_difficulty)
  moreover have "max_missed_food (update_difficulty gd) = max_missed_food gd"
    "missed_food (update_difficulty gd) = missed_food gd"
    "combo (update_difficulty gd) = combo gd"
    "score_multiplier (update_difficulty gd) = score_multiplier gd"
    "food_objects (update_difficulty gd) = food_objects gd"
    by (simp_all add: update_difficulty_def Let_def)
  ultimately show ?thesis using a by (simp add: round_inv_def)
qed

lemma update_difficulty_same:
  "score (update_difficulty gd) = score gd"
  "missed_food (update_difficulty gd) = missed_food gd"
  "max_missed_food (update_difficulty gd) = max_missed_food gd"
  "food_objects (update_difficulty gd) = food_objects gd"
  "score_popups (update_difficulty gd) = score_popups gd"
  by (simp_all add: update_difficulty_def Let_def)

lemma spawn_step_result:
  "\<exists>gd'. spawn_step w cr d gd = Inr gd' \<and>
     (round_inv gd \<longrightarrow> round_inv gd') \<and>
     score gd' = score gd \<and> missed_food gd' = missed_food gd \<and>
     max_missed_food gd' = max_missed_food gd \<and> level gd' = level gd \<and>
     level_timer gd' = level_timer gd \<and>
     score_popups gd' = score_popups gd \<and>
     achievement_messages gd' = achievement_messages gd"
proof (cases "current_spawn_rate gd \<le> spawn_timer gd + 1")
  case True
  obtain f where f: "spawn_food w cr d (gd\<lparr>spawn_timer := spawn_timer gd + 1\<rparr>) =
      Inr (gd\<lparr>spawn_timer := spawn_timer gd + 1,
               food_objects := food_objects gd @ [f]\<rparr>)"
    "r_h (rect f) = snd (value_size (ftype f))"
    using spawn_food_result[of w cr d "gd\<lparr>spawn_timer := spawn_timer gd + 1\<rparr>"] by auto
  have "0 \<le> snd (value_size (ftype f))" by (cases "ftype f") simp_all
  then have h: "0 \<le> r_h (rect f)" using f(2) by simp
  have "spawn_step w cr d gd =
      Inr (gd\<lparr>spawn_timer := 0, food_objects := food_objects gd @ [f]\<rparr>)"
    using True f(1) by (simp add: spawn_step_def Let_def)
  then show ?thesis using h by (simp add: round_inv_def derived_ok_def)
next
  case False
  then have "spawn_step w cr d gd = Inr (gd\<lparr>spawn_timer := spawn_timer gd + 1\<rparr>)"
    by (simp add: spawn_step_def Let_def)
  then show ?thesis by (simp add: round_inv_def derived_ok_def)
qed

lemma update_game_state_result:
  assumes gd: "game_data g = Some gd"
    and ri: "round_inv gd"
    and st: "current_state g = PLAYING"
    and ms: "missed_food gd < max_missed_food gd"
  shows "\<exists>g' gd'. update_game_state inp g = Inr g' \<and> game_data g' = Some gd' \<and>
           loop_inv (current_state g', gd') \<and> score gd \<le> score gd' \<and>
           level gd' = level (update_difficulty gd) \<and>
           level_timer gd' = level_timer (update_difficulty gd) \<and>
           rect_bottom (character_rect g') = rect_bottom (character_rect g) \<and>
           r_h (character_rect g') = r_h (character_rect g) \<and>
           width g' = width g \<and> height g' = height g \<and> high_score g' = high_score g \<and>
           analytics g' = analytics g \<and> files g' = files g \<and> paused g' = paused g"
proof -
  let ?cr = "move_character inp (width g) (character_speed gd) (character_rect g)"
  obtain gd1 where gd1: "spawn_step (width g) ?cr (draws inp) (update_difficulty gd) = Inr gd1"
    "round_inv (update_difficulty gd) \<longrightarrow> round_inv gd1"
    "score gd1 = score (update_difficulty gd)"
    "missed_food gd1 = missed_food (update_difficulty gd)"
    "max_missed_food gd1 = max_missed_food (update_difficulty gd)"
    "level gd1 = level (update_difficulty gd)"
    "level_timer gd1 = level_timer (update_difficulty gd)"
    using spawn_step_result[of "width g" ?cr "draws inp" "update_difficulty gd"] by blast
  let ?s = "update_foods ?cr (height g) (food_objects gd1) (PLAYING, gd1)"
  have li: "loop_inv (PLAYING, gd1)"
    using gd1 ri ms round_inv_update_difficulty[OF ri]
    by (simp add: loop_inv_def update_difficulty_same)
  note u = update_foods_inv[OF li, of ?cr "height g" "food_objects gd1"]
  have eq: "update_game_state inp g =
      Inr (g\<lparr>character_rect := ?cr, current_state := fst ?s, game_data := Some (snd ?s)\<rparr>)"
    using gd gd1(1) st by (simp add: update_game_state_def Let_def)
  show ?thesis
    unfolding eq using u gd1 
    by (simp add: rect_bottom_move_character move_character_fixed update_difficulty_same)
qed


lemma update_idle:
  "\<not> (current_state g = PLAYING \<and> game_data g \<noteq> None \<and> \<not> paused g) \<Longrightarrow> update inp g = Inr g"
  by (auto simp: update_def)

lemma save_high_score_fields:
  "width (save_high_score g) = width g" "height (save_high_score g) = height g"
  "analytics (save_high_score g) = analytics g" "paused (save_high_score g) = paused g"
  "high_score (save_high_score g) = high_score g"
  "current_state (save_high_score g) = current_state g"
  "game_data (save_high_score g) = game_data g"
  "character_rect (save_high_score g) = character_rect g"
  by (simp_all add: save_high_score_def)

lemma game_inv_save_high_score:
  "game_inv (save_high_score (g\<lparr>high_score := v\<rparr>)) = game_inv g"
  by (simp add: game_inv_def save_high_score_fields)

lemma update_active:
  assumes inv: "game_inv g" and st: "current_state g = PLAYING" and np: "\<not> paused g"
  shows "\<exists>gd g1 gd1. game_data g = Some gd \<and> missed_food gd < max_missed_food gd \<and>
           round_inv gd \<and>
           update_game_state inp g = Inr g1 \<and> game_data g1 = Some gd1 \<and>
           update inp g = Inr (if high_score g < score gd1
                               then save_high_score (g1\<lparr>high_score := score gd1\<rparr>) else g1) \<and>
           loop_inv (current_state g1, gd1) \<and> score gd \<le> score gd1 \<and>
           level gd1 = level (update_difficulty gd) \<and>
           level_timer gd1 = level_timer (update_difficulty gd) \<and>
           rect_bottom (character_rect g1) = rect_bottom (character_rect g) \<and>
           r_h (character_rect g1) = r_h (character_rect g) \<and>
           width g1 = width g \<and> height g1 = height g \<and> high_score g1 = high_score g \<and>
           analytics g1 = analytics g \<and> files g1 = files g \<and> paused g1 = paused g"
proof -
  obtain gd where gd: "game_data g = Some gd" "missed_food gd < max_missed_food gd"
    "round_inv gd"
    using inv st by (auto simp: game_inv_def split: option.splits)
  obtain g1 gd1 where g1: "update_game_state inp g = Inr g1" "game_data g1 = Some gd1"
    "loop_inv (current_state g1, gd1)" "score gd \<le> score gd1"
    "level gd1 = level (update_difficulty gd)"
    "level_timer gd1 = level_timer (update_difficulty gd)"
    "rect_bottom (character_rect g1) = rect_bottom (character_rect g)"
    "width g1 = width g" "height g1 = height g" "high_score g1 = high_score g"
    "r_h (character_rect g1) = r_h (character_rect g)"
    "analytics g1 = analytics g" "files g1 = files g" "paused g1 = paused g"
    using update_game_state_result[OF gd(1) gd(3) st gd(2), of inp] by blast
  have "update inp g = Inr (if high_score g < score gd1
                               then save_high_score (g1\<lparr>high_score := score gd1\<rparr>) else g1)"
    using gd(1) st np g1(1,2,10) by (simp add: update_def)
  then show ?thesis using gd g1 by blast
qed

lemma game_inv_of_loop_inv:
  assumes "loop_inv (current_state g1, gd1)" "game_data g1 = Some gd1"
    "rect_bottom (character_rect g1) \<le> height g1" "0 \<le> r_h (character_rect g1)"
  shows "game_inv g1"
  using assms by (auto simp: game_inv_def loop_inv_def)

lemma update_result:
  assumes inv: "game_inv g"
  shows "\<exists>g'. update inp g = Inr g' \<and> game_inv g'"
proof (cases "current_state g = PLAYING \<and> \<not> paused g")
  case True
  then obtain gd g1 gd1 where u: "game_data g1 = Some gd1"
    "update inp g = Inr (if high_score g < score gd1
                               then save_high_score (g1\<lparr>high_score := score gd1\<rparr>) else g1)"
    "loop_inv (current_state g1, gd1)"
    "rect_bottom (character_rect g1) = rect_bottom (character_rect g)"
    "height g1 = height g" "r_h (character_rect g1) = r_h (character_rect g)"
    using update_active[OF inv, of inp] by blast
  have "rect_bottom (character_rect g1) \<le> height g1" "0 \<le> r_h (character_rect g1)"
    using inv u(4,5,6) by (simp_all add: game_inv_def)
  then have "game_inv g1" using u(1,3) game_inv_of_loop_inv by blast
  then show ?thesis unfolding u(2) by (simp add: game_inv_save_high_score)
next
  case False
  then have "update inp g = Inr g" by (intro update_idle) auto
  then show ?thesis using inv by simp
qed

lemma draw_enhanced_hud_fields:
  "score (draw_enhanced_hud gd) = score gd"
  "missed_food (draw_enhanced_hud gd) = missed_food gd"
  "max_missed_food (draw_enhanced_hud gd) = max_missed_food gd"
  "level (draw_enhanced_hud gd) = level gd"
  "combo (draw_enhanced_hud gd) = combo gd"
  "max_combo (draw_enhanced_hud gd) = max_combo gd"
  "food_objects (draw_enhanced_hud gd) = food_objects gd"
  "game_over (draw_enhanced_hud gd) = game_over gd"
  "character_speed (draw_enhanced_hud gd) = character_speed gd"
  "base_spawn_rate (draw_enhanced_hud gd) = base_spawn_rate gd"
  "current_spawn_rate (draw_enhanced_hud gd) = current_spawn_rate gd"
  "difficulty_multiplier (draw_enhanced_hud gd) = difficulty_multiplier gd"
  "score_multiplier (draw_enhanced_hud gd) = score_multiplier gd"
  "spawn_timer (draw_enhanced_hud gd) = spawn_timer gd"
  "level_timer (draw_enhanced_hud gd) = level_timer gd"
  "special_spawn_chance (draw_enhanced_hud gd) = special_spawn_chance gd"
  "powerup_active (draw_enhanced_hud gd) = powerup_active gd"
  "powerup_timer (draw_enhanced_hud gd) = powerup_timer gd"
  "total_catches (draw_enhanced_hud gd) = total_catches gd"
  "perfect_catches (draw_enhanced_hud gd) = perfect_catches gd"
  "start_time (draw_enhanced_hud gd) = start_time gd"
  by (simp_all add: draw_enhanced_hud_def Let_def)

lemma round_inv_draw_enhanced_hud: "round_inv (draw_enhanced_hud gd) = round_inv gd"
  by (simp add: round_inv_def derived_ok_def draw_enhanced_hud_fields)

lemma game_inv_render: "game_inv g \<Longrightarrow> game_inv (render g)"
  by (auto simp: game_inv_def render_def render_game_def render_game_over_def
      show_game_over_def save_high_score_fields round_inv_draw_enhanced_hud
      draw_enhanced_hud_fields split: option.splits)

lemma game_inv_handle_keydown: "game_inv g \<Longrightarrow> game_inv (handle_keydown g)"
  by (auto simp: game_inv_def handle_keydown_def split: option.splits)

lemma game_inv_handle_mouse_click: "game_inv g \<Longrightarrow> game_inv (handle_mouse_click t p g)"
  using round_inv_new[of t]
  by (auto simp: game_inv_def handle_mouse_click_def Let_def new_GameData_def
      split: option.splits prod.splits)

lemma game_inv_init: "game_inv (init_Game w h hs a fs)"
  by (simp add: game_inv_def init_Game_def get_rect_center_def rect_bottom_def)

lemma reachable_game_inv: "reachable g \<Longrightarrow> game_inv g"
proof (induction rule: reachable.induct)
  case (init w h hs a fs)
  show ?case by (rule game_inv_init)
next
  case (click g ticks mouse_pos)
  then show ?case by (simp add: game_inv_handle_mouse_click)
next
  case (key g)
  then show ?case by (simp add: game_inv_handle_keydown)
next
  case (tick g inp g')
  then show ?case using update_result[of g inp] by auto
next
  case (frame g)
  then show ?case by (simp add: game_inv_render)
qed


lemma example_round_fields:
  "current_state example_round = PLAYING"
  "game_data example_round = Some (new_GameData 0)"
  "paused example_round = False"
  "high_score example_round = 0"
  "width example_round = 1200" "height example_round = 800"
  "character_rect example_round = \<lparr>r_x = 555, r_y = 555, r_w = 90, r_h = 150\<rparr>"
  "analytics example_round = new_AnalyticsData"
  "files example_round = \<lparr>high_score_txt = None, analytics_json = None, writable = True\<rparr>"
  by (simp_all add: example_round_def example_lobby_def handle_mouse_click_def init_Game_def
      get_lobby_buttons_def collidepoint_def get_rect_center_def Let_def)

lemma reachable_example_round: "reachable example_round"
  unfolding example_round_def example_lobby_def by (intro reachable.click reachable.init)

lemma save_high_score_files:
  "analytics_json (files (save_high_score g)) = analytics_json (files g)"
  "writable (files (save_high_score g)) = writable (files g)"
  "high_score_txt (files (save_high_score g)) =
     (if writable (files g) then Some (high_score g) else high_score_txt (files g))"
  by (simp_all add: save_high_score_def)

lemma update_tick:
  assumes inv: "game_inv g" and st: "current_state g = PLAYING" and np: "\<not> paused g"
  shows "\<exists>gd g' gd'. game_data g = Some gd \<and> update inp g = Inr g' \<and>
           game_data g' = Some gd' \<and> loop_inv (current_state g', gd') \<and>
           score gd \<le> score gd' \<and>
           level gd' = level (update_difficulty gd) \<and>
           level_timer gd' = level_timer (update_difficulty gd) \<and>
           high_score g' = max (high_score g) (score gd') \<and>
           analytics g' = analytics g \<and>
           analytics_json (files g') = analytics_json (files g) \<and>
           missed_food gd < max_missed_food gd"
proof -
  obtain gd g1 gd1 where u: "game_data g = Some gd" "missed_food gd < max_missed_food gd"
    "game_data g1 = Some gd1"
    "update inp g = Inr (if high_score g < score gd1
                         then save_high_score (g1\<lparr>high_score := score gd1\<rparr>) else g1)"
    "loop_inv (current_state g1, gd1)" "score gd \<le> score gd1"
    "level gd1 = level (update_difficulty gd)"
    "level_timer gd1 = level_timer (update_difficulty gd)"
    "high_score g1 = high_score g" "analytics g1 = analytics g" "files g1 = files g"
    using update_active[OF inv st np, of inp] by blast
  show ?thesis
  proof (cases "high_score g < score gd1")
    case True
    then have "update inp g = Inr (save_high_score (g1\<lparr>high_score := score gd1\<rparr>))"
      using u(4) by simp
    then show ?thesis using u True
      by (simp add: save_high_score_fields save_high_score_files)
  next
    case False
    then have "update inp g = Inr g1" using u(4) by simp
    then show ?thesis using u False by simp
  qed
qed

lemma update_any:
  assumes inv: "game_inv g"
  shows "\<exists>g'. update inp g = Inr g' \<and> high_score g \<le> high_score g' \<and>
           (\<forall>gd. game_data g = Some gd \<longrightarrow>
              (\<exists>gd'. game_data g' = Some gd' \<and> score gd \<le> score gd'))"
proof (cases "current_state g = PLAYING \<and> \<not> paused g")
  case True
  then obtain gd g' gd' where "game_data g = Some gd" "update inp g = Inr g'"
    "game_data g' = Some gd'" "score gd \<le> score gd'"
    "high_score g' = max (high_score g) (score gd')"
    using update_tick[OF inv, of inp] by blast
  then show ?thesis by auto
next
  case False
  then have "update inp g = Inr g" by (intro update_idle) auto
  then show ?thesis by auto
qed

lemma render_game_data:
  "game_data g = Some gd \<Longrightarrow>
   \<exists>gd'. game_data (render g) = Some gd' \<and> score gd' = score gd \<and> level gd' = level gd"
  by (auto simp: render_def render_game_def render_game_over_def show_game_over_def
      save_high_score_fields draw_enhanced_hud_fields)

lemma show_game_over_high_score:
  "high_score (show_game_over g gd) = max (high_score g) (score gd)"
  by (simp add: show_game_over_def save_high_score_fields)

lemma render_high_score: "high_score g \<le> high_score (render g)"
  by (auto simp: render_def render_game_def render_game_over_def show_game_over_high_score
      split: option.splits)

lemma handler_fields:
  "high_score (handle_keydown g) = high_score g"
  "game_data (handle_keydown g) = game_data g"
  "high_score (handle_mouse_click t p g) = high_score g"
  by (auto simp: handle_keydown_def handle_mouse_click_def Let_def split: prod.splits)


lemma level_5_values:
  "level_difficulty 5 = fl (148 / 100) \<and> level_spawn_rate 45 5 = 29 \<and>
   level_special_chance 5 = fl (25 / 100) \<and> level_character_speed 5 = fl (124 / 10)"
  by code_simp

lemma update_difficulty_timer:
  "level_timer (update_difficulty gd) = (if level_timer gd + 1 < 500 then level_timer gd + 1 else 0)"
  "level (update_difficulty gd) = (if level_timer gd + 1 < 500 then level gd else level gd + 1)"
  by (simp_all add: update_difficulty_def Let_def)

lemma reachable_derived:
  assumes "reachable g" "game_data g = Some gd"
  shows "difficulty_multiplier gd = level_difficulty (level gd)"
    "current_spawn_rate gd = level_spawn_rate 45 (level gd)"
    "special_spawn_chance gd = level_special_chance (level gd)"
    "character_speed gd = level_character_speed (level gd)"
  using reachable_game_inv[OF assms(1)] assms(2)
  by (simp_all add: game_inv_def round_inv_def derived_ok_def)

text \<open>
  Claim C3. The difficulty step advances the level timer by 1 and, while the timer stays
  below 500, changes nothing else; when the timer reaches 500 the level rises by 1, the
  timer returns to 0 and the four derived parameters are set from the new level. Every
  tick of a running round applies exactly one such step to the timer and the level. In
  every state a session can reach, the four derived parameters are the formulas' values
  at the current level, so two reachable states with the same level have identical
  derived values; at level 5 these values are the doubles 1.48, 29, 0.25 and 12.4.
\<close>

theorem difficulty_progression:
  "(level_timer gd + 1 < 500 \<longrightarrow>
      update_difficulty gd = gd\<lparr>level_timer := level_timer gd + 1\<rparr>) \<and>
   (500 \<le> level_timer gu + 1 \<longrightarrow>
      level (update_difficulty gu) = level gu + 1 \<and>
      level_timer (update_difficulty gu) = 0 \<and>
      difficulty_multiplier (update_difficulty gu) = level_difficulty (level gu + 1) \<and>
      current_spawn_rate (update_difficulty gu) =
        level_spawn_rate (base_spawn_rate gu) (level gu + 1) \<and>
      special_spawn_chance (update_difficulty gu) = level_special_chance (level gu + 1) \<and>
      character_speed (update_difficulty gu) = level_character_speed (level gu + 1)) \<and>
   (reachable g \<and> current_state g = PLAYING \<and> \<not> paused g \<longrightarrow>
      (\<exists>gd0 g' gd'. game_data g = Some gd0 \<and> update inp g = Inr g' \<and>
         game_data g' = Some gd' \<and>
         level_timer gd' = (if level_timer gd0 + 1 < 500 then level_timer gd0 + 1 else 0) \<and>
         level gd' = (if level_timer gd0 + 1 < 500 then level gd0 else level gd0 + 1))) \<and>
   (reachable h \<and> game_data h = Some gh \<longrightarrow>
      difficulty_multiplier gh = level_difficulty (level gh) \<and>
      current_spawn_rate gh = level_spawn_rate 45 (level gh) \<and>
      special_spawn_chance gh = level_special_chance (level gh) \<and>
      character_speed gh = level_character_speed (level gh)) \<and>
   (reachable h1 \<and> reachable h2 \<and> game_data h1 = Some g1 \<and> game_data h2 = Some g2 \<and>
    level g1 = level g2 \<longrightarrow>
      difficulty_multiplier g1 = difficulty_multiplier g2 \<and>
      current_spawn_rate g1 = current_spawn_rate g2 \<and>
      special_spawn_chance g1 = special_spawn_chance g2 \<and>
      character_speed g1 = character_speed g2) \<and>
   level_difficulty 5 = fl (148 / 100) \<and> level_spawn_rate 45 5 = 29 \<and>
   level_special_chance 5 = fl (25 / 100) \<and> level_character_speed 5 = fl (124 / 10)"
proof (intro conjI impI)
  assume "level_timer gd + 1 < 500"
  then show "update_difficulty gd = gd\<lparr>level_timer := level_timer gd + 1\<rparr>"
    by (rule update_difficulty_quiet)
next
  assume a: "500 \<le> level_timer gu + 1"
  show "level (update_difficulty gu) = level gu + 1"
    "level_timer (update_difficulty gu) = 0"
    "difficulty_multiplier (update_difficulty gu) = level_difficulty (level gu + 1)"
    "current_spawn_rate (update_difficulty gu) =
        level_spawn_rate (base_spawn_rate gu) (level gu + 1)"
    "special_spawn_chance (update_difficulty gu) = level_special_chance (level gu + 1)"
    "character_speed (update_difficulty gu) = level_character_speed (level gu + 1)"
    by (simp_all add: update_difficulty_levelup[OF a])
next
  assume a: "reachable g \<and> current_state g = PLAYING \<and> \<not> paused g"
  then have inv: "game_inv g" by (simp add: reachable_game_inv)
  obtain gd0 g' gd' where "game_data g = Some gd0" "update inp g = Inr g'"
    "game_data g' = Some gd'" "level gd' = level (update_difficulty gd0)"
    "level_timer gd' = level_timer (update_difficulty gd0)"
    using update_tick[OF inv, of inp] a by blast
  then show "\<exists>gd0 g' gd'. game_data g = Some gd0 \<and> update inp g = Inr g' \<and>
         game_data g' = Some gd' \<and>
         level_timer gd' = (if level_timer gd0 + 1 < 500 then level_timer gd0 + 1 else 0) \<and>
         level gd' = (if level_timer gd0 + 1 < 500 then level gd0 else level gd0 + 1)"
    by (intro exI[of _ gd0] exI[of _ g'] exI[of _ gd']) (simp add: update_difficulty_timer)
next
  assume a: "reachable h \<and> game_data h = Some gh"
  then show "difficulty_multiplier gh = level_difficulty (level gh)"
    "current_spawn_rate gh = level_spawn_rate 45 (level gh)"
    "special_spawn_chance gh = level_special_chance (level gh)"
    "character_speed gh = level_character_speed (level gh)"
    using reachable_derived[of h gh] by simp_all
next
  assume a: "reachable h1 \<and> reachable h2 \<and> game_data h1 = Some g1 \<and> game_data h2 = Some g2 \<and>
    level g1 = level g2"
  then show "difficulty_multiplier g1 = difficulty_multiplier g2"
    "current_spawn_rate g1 = current_spawn_rate g2"
    "special_spawn_chance g1 = special_spawn_chance g2"
    "character_speed g1 = character_speed g2"
    using reachable_derived[of h1 g1] reachable_derived[of h2 g2] by simp_all
qed (simp_all only: level_5_values)

theorem difficulty_progression_witness:
  "level_timer (new_GameData 0) + 1 < 500 \<and>
   update_difficulty (new_GameData 0) = (new_GameData 0)\<lparr>level_timer := 1\<rparr> \<and>
   500 \<le> level_timer ((new_GameData 0)\<lparr>level := 4, level_timer := 499\<rparr>) + 1 \<and>
   level (update_difficulty ((new_GameData 0)\<lparr>level := 4, level_timer := 499\<rparr>)) = 5 \<and>
   difficulty_multiplier (update_difficulty ((new_GameData 0)\<lparr>level := 4, level_timer := 499\<rparr>))
     = fl (148 / 100) \<and>
   reachable example_round \<and> current_state example_round = PLAYING \<and>
   \<not> paused example_round \<and> game_data example_round = Some (new_GameData 0) \<and>
   (\<exists>g' gd'. update example_input example_round = Inr g' \<and> game_data g' = Some gd' \<and>
      level_timer gd' = 1 \<and> level gd' = 1) \<and>
   reachable (handle_keydown example_round) \<and>
   game_data (handle_keydown example_round) = Some (new_GameData 0) \<and>
   difficulty_multiplier (new_GameData 0) = level_difficulty 1"
proof -
  let ?g4 = "(new_GameData 0)\<lparr>level := 4, level_timer := 499\<rparr>"
  note t = difficulty_progression[of "new_GameData 0" ?g4 example_round example_input
      example_round "new_GameData 0" example_round "handle_keydown example_round"
      "new_GameData 0" "new_GameData 0"]
  have a: "level_timer (new_GameData 0) + 1 < 500" by (simp add: new_GameData_def)
  have b: "500 \<le> level_timer ?g4 + 1" by simp
  have r: "reachable example_round \<and> current_state example_round = PLAYING \<and>
     \<not> paused example_round"
    by (simp add: reachable_example_round example_round_fields)
  have k: "reachable (handle_keydown example_round)"
    by (intro reachable.key reachable_example_round)
  have kd: "game_data (handle_keydown example_round) = Some (new_GameData 0)"
    by (simp add: handler_fields example_round_fields)
  have c1: "update_difficulty (new_GameData 0) = (new_GameData 0)\<lparr>level_timer := 1\<rparr>"
    using t a by (simp add: new_GameData_def)
  have c2: "level (update_difficulty ?g4) = 5"
    "difficulty_multiplier (update_difficulty ?g4) = fl (148 / 100)"
    using t b by simp_all
  obtain gd0 g' gd' where u: "game_data example_round = Some gd0"
    "update example_input example_round = Inr g'" "game_data g' = Some gd'"
    "level_timer gd' = (if level_timer gd0 + 1 < 500 then level_timer gd0 + 1 else 0)"
    "level gd' = (if level_timer gd0 + 1 < 500 then level gd0 else level gd0 + 1)"
    using t r by blast
  then have "gd0 = new_GameData 0" by (simp add: example_round_fields)
  then have c3: "\<exists>g' gd'. update example_input example_round = Inr g' \<and> game_data g' = Some gd' \<and>
      level_timer gd' = 1 \<and> level gd' = 1"
    using u by (intro exI[of _ g'] exI[of _ gd']) (simp add: new_GameData_def)
  have c4: "difficulty_multiplier (new_GameData 0) = level_difficulty 1"
    using t r k kd by (simp add: example_round_fields new_GameData_def)
  show ?thesis using a b r k kd c1 c2 c3 c4
    by (simp add: example_round_fields)
qed


lemma handle_collision_score_mono:
  assumes "0 \<le> combo gd" "0 \<le> score_multiplier gd"
  shows "score gd \<le> score (fst (handle_collision gd food))"
proof -
  have "0 \<le> combo gd + 1" using assms(1) by simp
  then have "0 \<le> catch_points (ftype food) (combo gd + 1) (score_multiplier gd)"
    using assms(2) by (rule catch_points_floor(2))
  then show ?thesis by (simp add: handle_collision_fields)
qed

text \<open>
  Claim C7. Within a round the score never decreases: not by a catch, not by the
  difficulty step, the spawn step or the HUD pass, and not by any tick, rendered frame or
  escape key press of a reachable game. Catching an Apple (1 point) at combo count 0 and
  score multiplier 1.0 adds exactly 1 point.
\<close>

theorem score_monotone:
  "(0 \<le> combo gd \<and> 0 \<le> score_multiplier gd \<longrightarrow>
      score gd \<le> score (fst (handle_collision gd food))) \<and>
   (ftype food = APPLE \<and> combo gc = 0 \<and> score_multiplier gc = 1 \<longrightarrow>
      snd (handle_collision gc food) = 1 \<and>
      score (fst (handle_collision gc food)) = score gc + 1) \<and>
   score (update_difficulty gd) = score gd \<and>
   (\<exists>gd'. spawn_step w cr d gd = Inr gd' \<and> score gd' = score gd) \<and>
   score (draw_enhanced_hud gd) = score gd \<and>
   (reachable g \<and> game_data g = Some gd0 \<longrightarrow>
      (\<exists>g' gd'. update inp g = Inr g' \<and> game_data g' = Some gd' \<and> score gd0 \<le> score gd') \<and>
      (\<exists>gd'. game_data (render g) = Some gd' \<and> score gd' = score gd0) \<and>
      game_data (handle_keydown g) = Some gd0)"
proof (intro conjI impI)
  assume "0 \<le> combo gd \<and> 0 \<le> score_multiplier gd"
  then show "score gd \<le> score (fst (handle_collision gd food))"
    by (simp add: handle_collision_score_mono)
next
  assume a: "ftype food = APPLE \<and> combo gc = 0 \<and> score_multiplier gc = 1"
  then show "snd (handle_collision gc food) = 1"
    by (simp add: handle_collision_fields catch_points_common_first)
  with a show "score (fst (handle_collision gc food)) = score gc + 1"
    by (simp add: handle_collision_fields)
next
  show "score (update_difficulty gd) = score gd" by (rule update_difficulty_same)
  show "\<exists>gd'. spawn_step w cr d gd = Inr gd' \<and> score gd' = score gd"
    using spawn_step_result[of w cr d gd] by blast
  show "score (draw_enhanced_hud gd) = score gd" by (rule draw_enhanced_hud_fields)
next
  assume a: "reachable g \<and> game_data g = Some gd0"
  then have inv: "game_inv g" by (simp add: reachable_game_inv)
  show "\<exists>g' gd'. update inp g = Inr g' \<and> game_data g' = Some gd' \<and> score gd0 \<le> score gd'"
    using update_any[OF inv, of inp] a by blast
  show "\<exists>gd'. game_data (render g) = Some gd' \<and> score gd' = score gd0"
    using render_game_data[of g gd0] a by blast
  show "game_data (handle_keydown g) = Some gd0" using a by (simp add: handler_fields)
qed

theorem score_monotone_witness:
  "0 \<le> combo (new_GameData 0) \<and> 0 \<le> score_multiplier (new_GameData 0) \<and>
   ftype \<lparr>img = \<lparr>surf_id = 1, surf_size = (60, 60)\<rparr>,
          rect = \<lparr>r_x = 600, r_y = 500, r_w = 60, r_h = 60\<rparr>, ftype = APPLE, speed = 1\<rparr> = APPLE \<and>
   combo (new_GameData 0) = 0 \<and> score_multiplier (new_GameData 0) = 1 \<and>
   score (fst (handle_collision (new_GameData 0)
     \<lparr>img = \<lparr>surf_id = 1, surf_size = (60, 60)\<rparr>,
      rect = \<lparr>r_x = 600, r_y = 500, r_w = 60, r_h = 60\<rparr>, ftype = APPLE, speed = 1\<rparr>)) = 1 \<and>
   reachable example_round \<and> game_data example_round = Some (new_GameData 0) \<and>
   (\<exists>g' gd'. update example_input example_round = Inr g' \<and> game_data g' = Some gd' \<and>
      score (new_GameData 0) \<le> score gd')"
proof -
  let ?f = "\<lparr>img = \<lparr>surf_id = 1, surf_size = (60, 60)\<rparr>,
      rect = \<lparr>r_x = 600, r_y = 500, r_w = 60, r_h = 60\<rparr>, ftype = APPLE, speed = 1\<rparr>"
  note t = score_monotone[of "new_GameData 0" ?f "new_GameData 0" 1200
      "character_rect example_round" "draws example_input" example_round "new_GameData 0"
      example_input]
  have a: "0 \<le> combo (new_GameData 0) \<and> 0 \<le> score_multiplier (new_GameData 0)"
    by (simp add: new_GameData_def fl_1)
  have b: "ftype ?f = APPLE \<and> combo (new_GameData 0) = 0 \<and>
      score_multiplier (new_GameData 0) = 1"
    by (simp add: new_GameData_def fl_1)
  have r: "reachable example_round \<and> game_data example_round = Some (new_GameData 0)"
    by (simp add: reachable_example_round example_round_fields)
  have c1: "score (fst (handle_collision (new_GameData 0) ?f)) = score (new_GameData 0) + 1"
    using t b by blast
  have c2: "\<exists>g' gd'. update example_input example_round = Inr g' \<and> game_data g' = Some gd' \<and>
      score (new_GameData 0) \<le> score gd'"
    using t r by blast
  have s0: "score (new_GameData 0) = 0" by (simp add: new_GameData_def)
  show ?thesis using a b r c1 c2 s0 by simp
qed

text \<open>
  Claim C10. The high score never decreases. A tick of a running round leaves it at the
  larger of its old value and the round's score after the tick; the game-over screen
  leaves it at the larger of its old value and the round's final score, and writes a
  raised value to its file when the file can be written; no tick, frame, key press or
  mouse click lowers it.
\<close>

theorem high_score_monotone:
  "(reachable g \<and> current_state g = PLAYING \<and> \<not> paused g \<longrightarrow>
      (\<exists>g' gd'. update inp g = Inr g' \<and> game_data g' = Some gd' \<and>
         high_score g' = max (high_score g) (score gd'))) \<and>
   high_score (show_game_over h gd) = max (high_score h) (score gd) \<and>
   (writable (files h) \<and> high_score h < score gd \<longrightarrow>
      high_score_txt (files (show_game_over h gd)) = Some (score gd)) \<and>
   (reachable g \<longrightarrow> (\<exists>g'. update inp g = Inr g' \<and> high_score g \<le> high_score g')) \<and>
   high_score h \<le> high_score (render h) \<and>
   high_score (handle_keydown h) = high_score h \<and>
   high_score (handle_mouse_click t p h) = high_score h"
proof (intro conjI impI)
  assume a: "reachable g \<and> current_state g = PLAYING \<and> \<not> paused g"
  then have inv: "game_inv g" by (simp add: reachable_game_inv)
  show "\<exists>g' gd'. update inp g = Inr g' \<and> game_data g' = Some gd' \<and>
         high_score g' = max (high_score g) (score gd')"
    using update_tick[OF inv, of inp] a by blast
next
  show "high_score (show_game_over h gd) = max (high_score h) (score gd)"
    by (rule show_game_over_high_score)
next
  assume "writable (files h) \<and> high_score h < score gd"
  then show "high_score_txt (files (show_game_over h gd)) = Some (score gd)"
    by (simp add: show_game_over_def save_high_score_def)
next
  assume "reachable g"
  then have inv: "game_inv g" by (rule reachable_game_inv)
  show "\<exists>g'. update inp g = Inr g' \<and> high_score g \<le> high_score g'"
    using update_any[OF inv, of inp] by blast
next
  show "high_score h \<le> high_score (render h)" by (rule render_high_score)
  show "high_score (handle_keydown h) = high_score h" by (rule handler_fields)
  show "high_score (handle_mouse_click t p h) = high_score h" by (rule handler_fields)
qed

theorem high_score_monotone_witness:
  "reachable example_round \<and> current_state example_round = PLAYING \<and>
   \<not> paused example_round \<and>
   (\<exists>g' gd'. update example_input example_round = Inr g' \<and> game_data g' = Some gd' \<and>
      high_score g' = max 0 (score gd')) \<and>
   writable (files example_round) \<and>
   high_score example_round < score ((new_GameData 0)\<lparr>score := 7\<rparr>) \<and>
   high_score_txt (files (show_game_over example_round ((new_GameData 0)\<lparr>score := 7\<rparr>))) = Some 7"
proof -
  note t = high_score_monotone[of example_round example_input example_round
      "(new_GameData 0)\<lparr>score := 7\<rparr>" 0 "(0, 0)"]
  have r: "reachable example_round \<and> current_state example_round = PLAYING \<and>
      \<not> paused example_round"
    by (simp add: reachable_example_round example_round_fields)
  have w: "writable (files example_round) \<and>
      high_score example_round < score ((new_GameData 0)\<lparr>score := 7\<rparr>)"
    by (simp add: example_round_fields)
  have c1: "\<exists>g' gd'. update example_input example_round = Inr g' \<and> game_data g' = Some gd' \<and>
      high_score g' = max (high_score example_round) (score gd')"
    using t r by blast
  have c2: "high_score_txt (files (show_game_over example_round
      ((new_GameData 0)\<lparr>score := 7\<rparr>))) = Some (score ((new_GameData 0)\<lparr>score := 7\<rparr>))"
    using t w by blast
  show ?thesis using r w c1 c2 by (simp add: example_round_fields)
qed


lemma map_of_dict_set: "map_of (dict_set d k v) = (map_of d)(k \<mapsto> v)"
  by (induction d) (auto simp: fun_eq_iff)

lemma map_of_dict_merge: "map_of (dict_merge a b) = map_of a ++ map_of (rev b)"
  unfolding dict_merge_def
proof (induction b arbitrary: a)
  case Nil
  then show ?case by simp
next
  case (Cons kv b)
  have "map_of (foldl (\<lambda>d kv. dict_set d (fst kv) (snd kv)) a (kv # b)) =
        map_of (dict_set a (fst kv) (snd kv)) ++ map_of (rev b)"
    using Cons.IH[of "dict_set a (fst kv) (snd kv)"] by simp
  also have "\<dots> = (map_of a)(fst kv \<mapsto> snd kv) ++ map_of (rev b)"
    by (simp add: map_of_dict_set)
  also have "\<dots> = map_of a ++ map_of (rev (kv # b))"
    by (cases kv) (auto simp: fun_eq_iff map_add_def split: option.splits)
  finally show ?case .
qed

lemma dict_get_merge_missing:
  "k \<notin> fst ` set b \<Longrightarrow> dict_get (dict_merge a b) k = dict_get a k"
proof -
  assume "k \<notin> fst ` set b"
  then have "map_of (rev b) k = None" by (simp add: map_of_eq_None_iff)
  then show ?thesis by (simp add: dict_get_def map_of_dict_merge map_add_def)
qed

lemma dict_get_merge_stored:
  assumes "distinct (map fst b)" "(k, v) \<in> set b"
  shows "dict_get (dict_merge a b) k = Some v"
proof -
  have "distinct (map fst (rev b))" using assms(1) by (simp add: rev_map[symmetric])
  moreover have "(k, v) \<in> set (rev b)" using assms(2) by simp
  ultimately have "map_of (rev b) k = Some v" by (rule map_of_is_SomeI)
  then show ?thesis by (simp add: dict_get_def map_of_dict_merge map_add_def)
qed

text \<open>
  Claim C9. \<open>load_config\<close> always returns a configuration (it never raises). For a stored
  JSON object, every key the object lacks has its default value and every stored key,
  known or unknown, has its stored value. When the file is missing, cannot be read, is
  not JSON or does not hold an object, the result is exactly the default record.
\<close>

theorem load_config_defaults:
  "(k \<notin> fst ` set d \<longrightarrow>
      dict_get (load_config (Parsed (JObj d))) k = dict_get DEFAULT_CONFIG k) \<and>
   (distinct (map fst d) \<and> (k', v) \<in> set d \<longrightarrow>
      dict_get (load_config (Parsed (JObj d))) k' = Some v) \<and>
   load_config Absent = DEFAULT_CONFIG \<and>
   load_config Unreadable = DEFAULT_CONFIG \<and>
   load_config Malformed = DEFAULT_CONFIG \<and>
   load_config (Parsed JNull) = DEFAULT_CONFIG \<and>
   load_config (Parsed (JBool b)) = DEFAULT_CONFIG \<and>
   load_config (Parsed (JInt i)) = DEFAULT_CONFIG \<and>
   load_config (Parsed (JFloat x)) = DEFAULT_CONFIG \<and>
   load_config (Parsed (JStr s)) = DEFAULT_CONFIG \<and>
   load_config (Parsed (JArr js)) = DEFAULT_CONFIG"
  by (simp add: load_config_def dict_get_merge_missing dict_get_merge_stored)

theorem load_config_defaults_witness:
  "''fps'' \<notin> fst ` set [(''screen_width'', JInt 1000), (''theme'', JStr ''dark'')] \<and>
   dict_get (load_config (Parsed (JObj [(''screen_width'', JInt 1000), (''theme'', JStr ''dark'')])))
     ''fps'' = Some (JInt 60) \<and>
   distinct (map fst [(''screen_width'', JInt 1000), (''theme'', JStr ''dark'')]) \<and>
   (''theme'', JStr ''dark'') \<in> set [(''screen_width'', JInt 1000), (''theme'', JStr ''dark'')] \<and>
   dict_get (load_config (Parsed (JObj [(''screen_width'', JInt 1000), (''theme'', JStr ''dark'')])))
     ''theme'' = Some (JStr ''dark'')"
proof -
  let ?d = "[(''screen_width'', JInt 1000), (''theme'', JStr ''dark'')]"
  note t = load_config_defaults[of "''fps''" ?d "''theme''" "JStr ''dark''"]
  have a: "''fps'' \<notin> fst ` set ?d" by simp
  have b: "distinct (map fst ?d) \<and> (''theme'', JStr ''dark'') \<in> set ?d" by simp
  have c1: "dict_get (load_config (Parsed (JObj ?d))) ''fps'' = dict_get DEFAULT_CONFIG ''fps''"
    using t a by blast
  have c2: "dict_get (load_config (Parsed (JObj ?d))) ''theme'' = Some (JStr ''dark'')"
    using t b by blast
  have "dict_get DEFAULT_CONFIG ''fps'' = Some (JInt 60)"
    by (simp add: dict_get_def DEFAULT_CONFIG_def)
  then show ?thesis using a b c1 c2 by simp
qed


lemma draw_popups_gen:
  assumes "\<forall>p \<in> set done. 0 < popup_timer p"
  shows "draw_popups rest (done @ rest) =
           done @ filter (\<lambda>p. 0 < popup_timer p)
                    (map (\<lambda>p. p\<lparr>popup_timer := popup_timer p - 1\<rparr>) rest)"
  using assms
proof (induction rest arbitrary: "done")
  case Nil
  then show ?case by simp
next
  case (Cons p rest)
  let ?q = "p\<lparr>popup_timer := popup_timer p - 1\<rparr>"
  have i: "length (done @ p # rest) - Suc (length rest) = length done" by simp
  have upd: "(done @ p # rest)[length done := ?q] = done @ ?q # rest" by simp
  show ?case
  proof (cases "popup_timer ?q \<le> 0")
    case True
    then have "?q \<notin> set done" using Cons.prems by auto
    then have "remove1 ?q (done @ ?q # rest) = done @ rest" by (simp add: remove1_append)
    then have "draw_popups (p # rest) (done @ p # rest) = draw_popups rest (done @ rest)"
      using True by (simp add: i upd Let_def del: list_update.simps)
    then show ?thesis using Cons.IH[OF Cons.prems] True by simp
  next
    case False
    then have "draw_popups (p # rest) (done @ p # rest) = draw_popups rest ((done @ [?q]) @ rest)"
      by (simp add: i upd Let_def del: list_update.simps)
    moreover have "\<forall>p \<in> set (done @ [?q]). 0 < popup_timer p"
      using Cons.prems False by auto
    ultimately show ?thesis using Cons.IH[of "done @ [?q]"] False by simp
  qed
qed

lemma draw_messages_gen:
  assumes "\<forall>m \<in> set done. 0 < msg_timer m"
  shows "draw_messages rest (done @ rest) =
           done @ filter (\<lambda>m. 0 < msg_timer m)
                    (map (\<lambda>m. m\<lparr>msg_timer := msg_timer m - 1\<rparr>) rest)"
  using assms
proof (induction rest arbitrary: "done")
  case Nil
  then show ?case by simp
next
  case (Cons p rest)
  let ?q = "p\<lparr>msg_timer := msg_timer p - 1\<rparr>"
  have i: "length (done @ p # rest) - Suc (length rest) = length done" by simp
  have upd: "(done @ p # rest)[length done := ?q] = done @ ?q # rest" by simp
  show ?case
  proof (cases "0 < msg_timer ?q")
    case False
    then have "?q \<notin> set done" using Cons.prems by auto
    then have "remove1 ?q (done @ ?q # rest) = done @ rest" by (simp add: remove1_append)
    then have "draw_messages (p # rest) (done @ p # rest) = draw_messages rest (done @ rest)"
      using False by (simp add: i upd Let_def del: list_update.simps)
    then show ?thesis using Cons.IH[OF Cons.prems] False by simp
  next
    case True
    then have "draw_messages (p # rest) (done @ p # rest) =
        draw_messages rest ((done @ [?q]) @ rest)"
      by (simp add: i upd Let_def del: list_update.simps)
    moreover have "\<forall>p \<in> set (done @ [?q]). 0 < msg_timer p"
      using Cons.prems True by auto
    ultimately show ?thesis using Cons.IH[of "done @ [?q]"] True by simp
  qed
qed

lemma draw_enhanced_hud_eq:
  "draw_enhanced_hud gd =
     gd\<lparr>score_popups := filter (\<lambda>p. 0 < popup_timer p)
           (map (\<lambda>p. p\<lparr>popup_timer := popup_timer p - 1\<rparr>) (score_popups gd)),
        achievement_messages := filter (\<lambda>m. 0 < msg_timer m)
           (map (\<lambda>m. m\<lparr>msg_timer := msg_timer m - 1\<rparr>) (achievement_messages gd))\<rparr>"
  using draw_popups_gen[of "[]" "score_popups gd"]
    draw_messages_gen[of "[]" "achievement_messages gd"]
  by (simp add: draw_enhanced_hud_def Let_def)

lemma visit_food_queues:
  "\<exists>ps ms. score_popups (snd (visit_food cr hgt n s)) = score_popups (snd s) @ ps \<and>
           achievement_messages (snd (visit_food cr hgt n s)) =
             achievement_messages (snd s) @ ms"
  by (simp add: visit_food_unfold Let_def handle_collision_queues)

lemma update_foods_queues:
  "\<exists>ps ms. score_popups (snd (update_foods cr hgt snap s)) = score_popups (snd s) @ ps \<and>
           achievement_messages (snd (update_foods cr hgt snap s)) =
             achievement_messages (snd s) @ ms"
proof (induction snap arbitrary: s)
  case Nil
  then show ?case by simp
next
  case (Cons f rest)
  obtain ps ms where a: "score_popups (snd (visit_food cr hgt (length rest) s)) =
      score_popups (snd s) @ ps"
    "achievement_messages (snd (visit_food cr hgt (length rest) s)) =
      achievement_messages (snd s) @ ms"
    using visit_food_queues[of cr hgt "length rest" s] by blast
  obtain ps' ms' where b:
    "score_popups (snd (update_foods cr hgt rest (visit_food cr hgt (length rest) s))) =
      score_popups (snd (visit_food cr hgt (length rest) s)) @ ps'"
    "achievement_messages (snd (update_foods cr hgt rest (visit_food cr hgt (length rest) s))) =
      achievement_messages (snd (visit_food cr hgt (length rest) s)) @ ms'"
    using Cons.IH[of "visit_food cr hgt (length rest) s"] by blast
  show ?case using a b by simp
qed

lemma update_difficulty_queues:
  "score_popups (update_difficulty gd) = score_popups gd"
  "\<exists>ms. achievement_messages (update_difficulty gd) = achievement_messages gd @ ms"
  by (simp_all add: update_difficulty_def Let_def)

lemma update_game_state_queues:
  assumes "update_game_state inp g = Inr g1" "game_data g = Some gd" "game_data g1 = Some gd1"
  shows "\<exists>ps ms. score_popups gd1 = score_popups gd @ ps \<and>
           achievement_messages gd1 = achievement_messages gd @ ms"
proof -
  let ?cr = "move_character inp (width g) (character_speed gd) (character_rect g)"
  obtain gd2 where s: "spawn_step (width g) ?cr (draws inp) (update_difficulty gd) = Inr gd2"
    "score_popups gd2 = score_popups (update_difficulty gd)"
    "achievement_messages gd2 = achievement_messages (update_difficulty gd)"
    using spawn_step_result[of "width g" ?cr "draws inp" "update_difficulty gd"] by blast
  let ?s = "update_foods ?cr (height g) (food_objects gd2) (current_state g, gd2)"
  have "gd1 = snd ?s" using assms s(1) by (auto simp: update_game_state_def Let_def)
  moreover obtain ps ms where "score_popups (snd ?s) = score_popups gd2 @ ps"
    "achievement_messages (snd ?s) = achievement_messages gd2 @ ms"
    using update_foods_queues[of ?cr "height g" "food_objects gd2" "(current_state g, gd2)"]
    by auto
  moreover obtain ms0 where
    "achievement_messages (update_difficulty gd) = achievement_messages gd @ ms0"
    using update_difficulty_queues(2) by blast
  ultimately show ?thesis using s(2,3) by (simp add: update_difficulty_queues(1))
qed

lemma update_queues:
  assumes "update inp g = Inr g'" "game_data g = Some gd" "game_data g' = Some gd'"
  shows "\<exists>ps ms. score_popups gd' = score_popups gd @ ps \<and>
           achievement_messages gd' = achievement_messages gd @ ms"
proof (cases "current_state g = PLAYING \<and> \<not> paused g")
  case True
  then obtain g1 where g1: "update_game_state inp g = Inr g1"
    using assms(1,2) by (auto simp: update_def split: sum.splits)
  then have "game_data g' = game_data g1"
    using True assms(1,2)
    by (auto simp: update_def save_high_score_fields split: option.splits if_splits)
  then show ?thesis using update_game_state_queues[OF g1 assms(2)] assms(3) by simp
next
  case False
  then have "update inp g = Inr g" by (intro update_idle) auto
  then show ?thesis using assms by simp
qed

lemma render_game_data_eq:
  "game_data (render g) =
     (if current_state g = PLAYING \<or> current_state g = PAUSED
      then map_option draw_enhanced_hud (game_data g) else game_data g)"
  by (auto simp: render_def render_game_def render_game_over_def show_game_over_def
      save_high_score_fields split: option.splits)


text \<open>
  Claim C4, as stated, fails: the drawing pass itself counts the timers down and removes
  the expired entries. Drawing the HUD of a round that holds one popup with timer 60 and
  one banner with timer 1 leaves the popup with timer 59 and removes the banner.
\<close>

theorem render_changes_only_queues_counterexample:
  "score_popups (draw_enhanced_hud ((new_GameData 0)
      \<lparr>score_popups := [\<lparr>popup_text = ''+1'', popup_pos = (600, 500), popup_timer = 60,
                          popup_color = (255, 0, 0)\<rparr>],
       achievement_messages := [\<lparr>msg_text = ''Super Combo!'', msg_timer = 1,
                                  msg_color = (255, 165, 0)\<rparr>]\<rparr>)) =
     [\<lparr>popup_text = ''+1'', popup_pos = (600, 500), popup_timer = 59,
       popup_color = (255, 0, 0)\<rparr>] \<and>
   achievement_messages (draw_enhanced_hud ((new_GameData 0)
      \<lparr>score_popups := [\<lparr>popup_text = ''+1'', popup_pos = (600, 500), popup_timer = 60,
                          popup_color = (255, 0, 0)\<rparr>],
       achievement_messages := [\<lparr>msg_text = ''Super Combo!'', msg_timer = 1,
                                  msg_color = (255, 165, 0)\<rparr>]\<rparr>)) = [] \<and>
   draw_enhanced_hud ((new_GameData 0)
      \<lparr>score_popups := [\<lparr>popup_text = ''+1'', popup_pos = (600, 500), popup_timer = 60,
                          popup_color = (255, 0, 0)\<rparr>],
       achievement_messages := [\<lparr>msg_text = ''Super Combo!'', msg_timer = 1,
                                  msg_color = (255, 165, 0)\<rparr>]\<rparr>) \<noteq>
   (new_GameData 0)
      \<lparr>score_popups := [\<lparr>popup_text = ''+1'', popup_pos = (600, 500), popup_timer = 60,
                          popup_color = (255, 0, 0)\<rparr>],
       achievement_messages := [\<lparr>msg_text = ''Super Combo!'', msg_timer = 1,
                                  msg_color = (255, 165, 0)\<rparr>]\<rparr>"
  by (simp add: draw_enhanced_hud_def Let_def new_GameData_def)

text \<open>
  Claim C4, amended. Rendering leaves every field of the round state other than the two
  feedback queues unchanged. Each render of the playing or paused screen decrements the
  timer of every score popup and achievement banner by 1 and removes the entries whose
  timer has reached 0; rendering any other screen leaves the round state as it is. The
  countdown and the removal are done by the drawing pass, not by the simulation: a tick
  only appends entries to the two queues.
\<close>

theorem render_changes_only_queues:
  "draw_enhanced_hud gd =
     gd\<lparr>score_popups := filter (\<lambda>p. 0 < popup_timer p)
           (map (\<lambda>p. p\<lparr>popup_timer := popup_timer p - 1\<rparr>) (score_popups gd)),
        achievement_messages := filter (\<lambda>m. 0 < msg_timer m)
           (map (\<lambda>m. m\<lparr>msg_timer := msg_timer m - 1\<rparr>) (achievement_messages gd))\<rparr> \<and>
   game_data (render g) =
     (if current_state g = PLAYING \<or> current_state g = PAUSED
      then map_option draw_enhanced_hud (game_data g) else game_data g) \<and>
   (update inp h = Inr h' \<and> game_data h = Some gd0 \<and> game_data h' = Some gd' \<longrightarrow>
      (\<exists>ps ms. score_popups gd' = score_popups gd0 @ ps \<and>
               achievement_messages gd' = achievement_messages gd0 @ ms))"
  using draw_enhanced_hud_eq[of gd] render_game_data_eq[of g]
    update_queues[of inp h h' gd0 gd']
  by blast

theorem render_changes_only_queues_witness:
  "\<exists>h' gd' ps ms. update example_input example_round = Inr h' \<and>
     game_data example_round = Some (new_GameData 0) \<and> game_data h' = Some gd' \<and>
     score_popups gd' = score_popups (new_GameData 0) @ ps \<and>
     achievement_messages gd' = achievement_messages (new_GameData 0) @ ms"
proof -
  have inv: "game_inv example_round" by (intro reachable_game_inv reachable_example_round)
  obtain h' gd' where u: "update example_input example_round = Inr h'"
    "game_data h' = Some gd'"
    using update_any[OF inv, of example_input] example_round_fields(2) by blast
  have g: "game_data example_round = Some (new_GameData 0)" by (rule example_round_fields)
  from render_changes_only_queues[of _ _ example_input example_round h' "new_GameData 0" gd']
  obtain ps ms where "score_popups gd' = score_popups (new_GameData 0) @ ps"
    "achievement_messages gd' = achievement_messages (new_GameData 0) @ ms"
    using u g by blast
  then show ?thesis using u g by blast
qed


lemma last_misses_tick:
  "(case update example_input example_last_misses of
      Inl e \<Rightarrow> False
    | Inr g' \<Rightarrow>
        current_state g' = GAME_OVER \<and> games_played (analytics g') = 0 \<and>
        analytics g' = new_AnalyticsData \<and>
        analytics_json (files g') = None \<and>
        (case game_data g' of
           None \<Rightarrow> False
         | Some gd' \<Rightarrow> missed_food gd' = 4 \<and> max_missed_food gd' = 3 \<and>
              food_objects gd' = [] \<and> game_over gd'))"
  by code_simp

lemma last_misses_loop_eval:
  "(case visit_food (character_rect example_last_misses) 800 1
          (PLAYING, the (game_data example_last_misses)) of
      (st1, gd1) \<Rightarrow>
        st1 = GAME_OVER \<and> missed_food gd1 = 3 \<and> combo gd1 = 0 \<and>
        length (food_objects gd1) = 1 \<and>
        (case visit_food (character_rect example_last_misses) 800 0 (st1, gd1) of
           (st2, gd2) \<Rightarrow> missed_food gd2 = 4 \<and> food_objects gd2 = []))"
  by code_simp

lemma last_misses_loop:
  "fst (visit_food (character_rect example_last_misses) 800 1
          (PLAYING, the (game_data example_last_misses))) = GAME_OVER \<and>
   missed_food (snd (visit_food (character_rect example_last_misses) 800 1
          (PLAYING, the (game_data example_last_misses)))) = 3 \<and>
   missed_food (snd (visit_food (character_rect example_last_misses) 800 0
     (visit_food (character_rect example_last_misses) 800 1
          (PLAYING, the (game_data example_last_misses))))) = 4"
  using last_misses_loop_eval by (simp add: case_prod_beta)

lemma update_session_fields:
  "games_played (fst (update_session (a, fs) gd)) = games_played a + 1"
  "total_score (fst (update_session (a, fs) gd)) = total_score a + score gd"
  "max_score (fst (update_session (a, fs) gd)) = max (max_score a) (score gd)"
  "items_caught (fst (update_session (a, fs) gd)) = items_caught a + total_catches gd"
  "total_time (fst (update_session (a, fs) gd)) = total_time a"
  "snd (update_session (a, fs) gd) =
     (if writable fs then fs\<lparr>analytics_json := Some (fst (update_session (a, fs) gd))\<rparr> else fs)"
  by (simp_all add: update_session_def save_analytics_def Let_def)

lemma update_session_two_rounds:
  "fst (update_session
         (update_session (new_AnalyticsData, fs) ((new_GameData 0)\<lparr>score := 10, total_catches := 5\<rparr>))
         ((new_GameData 0)\<lparr>score := 25, total_catches := 8\<rparr>)) =
   \<lparr>games_played = 2, total_score = 35, max_score = 25, total_time = 0, items_caught = 13\<rparr>"
  by (simp add: update_session_def save_analytics_def new_AnalyticsData_def Let_def)

lemma session_keeps_analytics:
  "analytics (render g) = analytics g"
  "analytics (handle_keydown g) = analytics g"
  "analytics (handle_mouse_click t p g) = analytics g"
  by (auto simp: render_def render_game_def render_game_over_def show_game_over_def
      save_high_score_fields handle_keydown_def handle_mouse_click_def Let_def
      split: option.splits prod.splits)

text \<open>
  Claim C8 against the code. \<open>Analytics.update_session\<close> computes the aggregate the claim
  describes and saves it at once, but the game never calls it. The tick below ends a
  round (two items leave the field with two misses already counted), and the analytics
  data and the analytics file are as they were at start-up: no game played is counted.
\<close>

theorem game_over_tick_skips_analytics:
  "\<not> isl (update example_input example_last_misses) \<and>
   current_state example_last_misses = PLAYING \<and>
   current_state (projr (update example_input example_last_misses)) = GAME_OVER \<and>
   analytics (projr (update example_input example_last_misses)) = new_AnalyticsData \<and>
   games_played (analytics (projr (update example_input example_last_misses))) = 0 \<and>
   analytics_json (files (projr (update example_input example_last_misses))) = None"
proof -
  have "current_state example_last_misses = PLAYING"
    by (simp add: example_last_misses_def example_round_fields)
  then show ?thesis using last_misses_tick by (auto split: sum.splits)
qed


lemma no_collision_below_field:
  assumes "hgt < rect_top r" "rect_bottom cr \<le> hgt" "0 \<le> r_h cr" "0 \<le> r_h r"
  shows "\<not> colliderect r cr"
  using assms by (auto simp: colliderect_def rect_top_def rect_bottom_def)

lemma visit_food_miss:
  assumes li: "loop_inv s" and cb: "rect_bottom cr \<le> hgt" and ch: "0 \<le> r_h cr"
    and live: "live = food_objects (snd s)" and n: "n < length live"
    and i: "i = length live - Suc n" and food: "food = move_down (live ! i)"
    and below: "hgt < rect_top (rect food)"
  shows "food_objects (snd (visit_food cr hgt n s)) = remove1 food (live[i := food])"
    and "length (food_objects (snd (visit_food cr hgt n s))) + 1 = length live"
    and "missed_food (snd (visit_food cr hgt n s)) = missed_food (snd s) + 1"
    and "combo (snd (visit_food cr hgt n s)) = 0"
proof -
  have il: "i < length live" using n i by simp
  then have "live ! i \<in> set live" by simp
  then have "0 \<le> r_h (rect (live ! i))"
    using li live by (simp add: loop_inv_def round_inv_def)
  then have "0 \<le> r_h (rect food)" by (simp add: food move_down_fields)
  then have nc: "\<not> colliderect (rect food) cr"
    using below cb ch by (intro no_collision_below_field)
  have mem: "food \<in> set (live[i := food])" using il by (simp add: set_update_memI)
  show "food_objects (snd (visit_food cr hgt n s)) = remove1 food (live[i := food])"
    using nc below by (simp add: visit_food_unfold Let_def live[symmetric] i[symmetric] food[symmetric])
  then show "length (food_objects (snd (visit_food cr hgt n s))) + 1 = length live"
    using mem il by (simp add: length_remove1)
  show "missed_food (snd (visit_food cr hgt n s)) = missed_food (snd s) + 1"
    using nc below by (simp add: visit_food_unfold Let_def live[symmetric] i[symmetric] food[symmetric])
  show "combo (snd (visit_food cr hgt n s)) = 0"
    using nc below by (simp add: visit_food_unfold Let_def live[symmetric] i[symmetric] food[symmetric])
qed

lemma update_game_over_idle: "current_state h = GAME_OVER \<Longrightarrow> update inp h = Inr h"
  by (intro update_idle) simp


lemma last_misses_fields:
  "current_state example_last_misses = PLAYING"
  "character_rect example_last_misses = \<lparr>r_x = 555, r_y = 555, r_w = 90, r_h = 150\<rparr>"
  "missed_food (the (game_data example_last_misses)) = 2"
  "max_missed_food (the (game_data example_last_misses)) = 3"
  "length (food_objects (the (game_data example_last_misses))) = 2"
  by (simp_all add: example_last_misses_def example_round_fields new_GameData_def)

lemma last_misses_loop_inv: "loop_inv (PLAYING, the (game_data example_last_misses))"
  by (simp add: loop_inv_def round_inv_def derived_ok_def example_last_misses_def
      new_GameData_def fl_1)

lemma game_inv_example_last_misses: "game_inv example_last_misses"
  using last_misses_loop_inv
  by (simp add: game_inv_def loop_inv_def example_last_misses_def example_round_fields
      rect_bottom_def new_GameData_def)

lemma last_misses_apple_below:
  "rect_top (rect (move_down (food_objects (the (game_data example_last_misses)) ! 0))) = 801"
  by code_simp

text \<open>
  Claim C1, as stated, fails in its last part. In the round below two items leave the
  field in the same tick with two misses already counted. The first miss brings the count
  to 3 and turns the state to game-over; the loop then still processes the second item
  of its snapshot, and the tick ends with 4 misses counted against a limit of 3.
\<close>

theorem miss_handling_counterexample:
  "current_state example_last_misses = PLAYING \<and>
   missed_food (the (game_data example_last_misses)) = 2 \<and>
   fst (visit_food (character_rect example_last_misses) 800 1
          (PLAYING, the (game_data example_last_misses))) = GAME_OVER \<and>
   missed_food (snd (visit_food (character_rect example_last_misses) 800 1
          (PLAYING, the (game_data example_last_misses)))) = 3 \<and>
   missed_food (snd (visit_food (character_rect example_last_misses) 800 0
     (visit_food (character_rect example_last_misses) 800 1
          (PLAYING, the (game_data example_last_misses))))) = 4 \<and>
   \<not> isl (update example_input example_last_misses) \<and>
   current_state (projr (update example_input example_last_misses)) = GAME_OVER \<and>
   missed_food (the (game_data (projr (update example_input example_last_misses)))) = 4 \<and>
   max_missed_food (the (game_data (projr (update example_input example_last_misses)))) = 3"
proof -
  have "\<not> isl (update example_input example_last_misses) \<and>
   current_state (projr (update example_input example_last_misses)) = GAME_OVER \<and>
   missed_food (the (game_data (projr (update example_input example_last_misses)))) = 4 \<and>
   max_missed_food (the (game_data (projr (update example_input example_last_misses)))) = 3"
    using last_misses_tick by (auto split: sum.splits option.splits)
  then show ?thesis using last_misses_loop last_misses_fields(1,3) by simp
qed

text \<open>
  Claim C1, amended. In every iteration of a tick's item loop, an item whose top edge has
  passed the bottom of the field is removed from the active items, the miss count rises
  by 1 and the combo count is reset to 0. While a round is playing or paused its miss
  count is below the limit of 3, hence within it. A tick ends in the game-over state
  exactly if the miss count has reached the limit, and otherwise the round keeps playing.
  After that transition no later tick processes any item: the update does nothing in the
  game-over state. (The items that follow in the snapshot of the transition's own tick
  are still processed.)
\<close>

theorem miss_handling:
  "(loop_inv s \<and> rect_bottom cr \<le> hgt \<and> 0 \<le> r_h cr \<and>
    live = food_objects (snd s) \<and> n < length live \<and> i = length live - Suc n \<and>
    food = move_down (live ! i) \<and> hgt < rect_top (rect food) \<longrightarrow>
      food_objects (snd (visit_food cr hgt n s)) = remove1 food (live[i := food]) \<and>
      length (food_objects (snd (visit_food cr hgt n s))) + 1 = length live \<and>
      missed_food (snd (visit_food cr hgt n s)) = missed_food (snd s) + 1 \<and>
      combo (snd (visit_food cr hgt n s)) = 0) \<and>
   (reachable g \<and> (current_state g = PLAYING \<or> current_state g = PAUSED) \<longrightarrow>
      (\<exists>gd. game_data g = Some gd \<and> max_missed_food gd = 3 \<and>
            missed_food gd < max_missed_food gd \<and> missed_food gd \<le> max_missed_food gd)) \<and>
   (reachable g \<and> current_state g = PLAYING \<and> \<not> paused g \<longrightarrow>
      (\<exists>g' gd'. update inp g = Inr g' \<and> game_data g' = Some gd' \<and>
         (current_state g' = PLAYING \<or> current_state g' = GAME_OVER) \<and>
         (current_state g' = GAME_OVER \<longleftrightarrow> max_missed_food gd' \<le> missed_food gd'))) \<and>
   (current_state h = GAME_OVER \<longrightarrow> update inp h = Inr h)"
proof (intro conjI impI)
  assume a: "loop_inv s \<and> rect_bottom cr \<le> hgt \<and> 0 \<le> r_h cr \<and>
    live = food_objects (snd s) \<and> n < length live \<and> i = length live - Suc n \<and>
    food = move_down (live ! i) \<and> hgt < rect_top (rect food)"
  show "food_objects (snd (visit_food cr hgt n s)) = remove1 food (live[i := food])"
    using a visit_food_miss(1)[of s cr hgt live n i food] by blast
  show "length (food_objects (snd (visit_food cr hgt n s))) + 1 = length live"
    using a visit_food_miss(2)[of s cr hgt live n i food] by blast
  show "missed_food (snd (visit_food cr hgt n s)) = missed_food (snd s) + 1"
    using a visit_food_miss(3)[of s cr hgt live n i food] by blast
  show "combo (snd (visit_food cr hgt n s)) = 0"
    using a visit_food_miss(4)[of s cr hgt live n i food] by blast
next
  assume a: "reachable g \<and> (current_state g = PLAYING \<or> current_state g = PAUSED)"
  then have "game_inv g" by (simp add: reachable_game_inv)
  then show "\<exists>gd. game_data g = Some gd \<and> max_missed_food gd = 3 \<and>
            missed_food gd < max_missed_food gd \<and> missed_food gd \<le> max_missed_food gd"
    using a by (auto simp: game_inv_def round_inv_def split: option.splits)
next
  assume a: "reachable g \<and> current_state g = PLAYING \<and> \<not> paused g"
  then have inv: "game_inv g" by (simp add: reachable_game_inv)
  obtain g' gd' where u: "update inp g = Inr g'" "game_data g' = Some gd'"
    "loop_inv (current_state g', gd')"
    using update_tick[OF inv, of inp] a by blast
  then show "\<exists>g' gd'. update inp g = Inr g' \<and> game_data g' = Some gd' \<and>
         (current_state g' = PLAYING \<or> current_state g' = GAME_OVER) \<and>
         (current_state g' = GAME_OVER \<longleftrightarrow> max_missed_food gd' \<le> missed_food gd')"
    by (intro exI[of _ g'] exI[of _ gd']) (auto simp: loop_inv_def)
next
  assume "current_state h = GAME_OVER"
  then show "update inp h = Inr h" by (rule update_game_over_idle)
qed

theorem miss_handling_witness:
  "loop_inv (PLAYING, the (game_data example_last_misses)) \<and>
   rect_bottom (character_rect example_last_misses) \<le> 800 \<and>
   0 \<le> r_h (character_rect example_last_misses) \<and>
   1 < length (food_objects (the (game_data example_last_misses))) \<and>
   800 < rect_top (rect (move_down (food_objects (the (game_data example_last_misses)) ! 0))) \<and>
   missed_food (snd (visit_food (character_rect example_last_misses) 800 1
      (PLAYING, the (game_data example_last_misses)))) = 3 \<and>
   combo (snd (visit_food (character_rect example_last_misses) 800 1
      (PLAYING, the (game_data example_last_misses)))) = 0 \<and>
   length (food_objects (snd (visit_food (character_rect example_last_misses) 800 1
      (PLAYING, the (game_data example_last_misses))))) + 1 = 2 \<and>
   reachable example_round \<and> current_state example_round = PLAYING \<and>
   \<not> paused example_round \<and>
   (\<exists>gd. game_data example_round = Some gd \<and> missed_food gd < max_missed_food gd) \<and>
   (\<exists>g' gd'. update example_input example_round = Inr g' \<and> game_data g' = Some gd' \<and>
      (current_state g' = GAME_OVER \<longleftrightarrow> max_missed_food gd' \<le> missed_food gd')) \<and>
   current_state (example_round\<lparr>current_state := GAME_OVER\<rparr>) = GAME_OVER \<and>
   update example_input (example_round\<lparr>current_state := GAME_OVER\<rparr>) =
     Inr (example_round\<lparr>current_state := GAME_OVER\<rparr>)"
proof -
  let ?s = "(PLAYING, the (game_data example_last_misses))"
  let ?cr = "character_rect example_last_misses"
  let ?live = "food_objects (the (game_data example_last_misses))"
  let ?over = "example_round\<lparr>current_state := GAME_OVER\<rparr>"
  note t = miss_handling[of ?s ?cr 800 ?live 1 0 "move_down (?live ! 0)" example_round
      example_input ?over]
  have a1: "loop_inv ?s" by (rule last_misses_loop_inv)
  have a2: "rect_bottom ?cr \<le> 800" "0 \<le> r_h ?cr"
    by (simp_all add: last_misses_fields rect_bottom_def)
  have a3: "1 < length ?live" "0 = length ?live - Suc 1"
    by (simp_all add: last_misses_fields)
  have a4: "800 < rect_top (rect (move_down (?live ! 0)))"
    by (simp add: last_misses_apple_below)
  have hyp1: "loop_inv ?s \<and> rect_bottom ?cr \<le> 800 \<and> 0 \<le> r_h ?cr \<and>
    ?live = food_objects (snd ?s) \<and> 1 < length ?live \<and> 0 = length ?live - Suc 1 \<and>
    move_down (?live ! 0) = move_down (?live ! 0) \<and>
    800 < rect_top (rect (move_down (?live ! 0)))"
    using a1 a2 a3 a4 by simp
  have c1: "missed_food (snd (visit_food ?cr 800 1 ?s)) = missed_food (snd ?s) + 1"
    "combo (snd (visit_food ?cr 800 1 ?s)) = 0"
    "length (food_objects (snd (visit_food ?cr 800 1 ?s))) + 1 = length ?live"
    using t hyp1 by blast+
  have r: "reachable example_round \<and> current_state example_round = PLAYING \<and>
      \<not> paused example_round"
    by (simp add: reachable_example_round example_round_fields)
  have c2: "\<exists>gd. game_data example_round = Some gd \<and> missed_food gd < max_missed_food gd"
    using t r by blast
  have c3: "\<exists>g' gd'. update example_input example_round = Inr g' \<and> game_data g' = Some gd' \<and>
      (current_state g' = GAME_OVER \<longleftrightarrow> max_missed_food gd' \<le> missed_food gd')"
    using t r by blast
  have o: "current_state ?over = GAME_OVER" by simp
  have c4: "update example_input ?over = Inr ?over" using t o by blast
  show ?thesis
    using a1 a2 a3(1) a4 c1 r c2 c3 o c4 by (simp add: last_misses_fields)
qed

end
